theory Spec2Isabelle
  imports Complex_Main
begin

section \<open>AlertMatrix detection services: data model\<close>

text \<open>
  The embedding follows \<^verbatim>\<open>Yolo5/enhanced_detection_service.py\<close>,
  \<^verbatim>\<open>Yolo5/gun_detection_service.py\<close> and \<^verbatim>\<open>Yolo5/working_video_stream.py\<close>.
  Readings of \<^verbatim>\<open>time.time()\<close> and the configured thresholds are modelled as
  \<^typ>\<open>real\<close>, Python ints as \<^typ>\<open>int\<close>, and the floating-point numbers that
  come out of the detector as \<open>pyfloat\<close>: a real value, an infinity or a NaN. Everything
  the code reads from its surroundings (the clock, the HTTP reply of the backend, NumPy's
  and OpenCV's treatment of their arguments, the camera devices, the JPEG encoder) is an
  explicit argument of the function that reads it.
\<close>

subsection \<open>Floating-point values\<close>

text \<open>
  An element of a detector array (\<^verbatim>\<open>np.float32\<close> for the YOLO models), and what
  \<^verbatim>\<open>float(...)\<close> makes of it: the conversion to a Python float is exact.
\<close>

datatype pyfloat = Finite real | PosInf | NegInf | NaN

text \<open>The IEEE comparison \<open>a \<le> b\<close>: false as soon as one side is a NaN.\<close>

fun pf_le :: "pyfloat \<Rightarrow> pyfloat \<Rightarrow> bool" where
  "pf_le NaN b = False"
| "pf_le a NaN = False"
| "pf_le NegInf b = True"
| "pf_le a PosInf = True"
| "pf_le (Finite a) (Finite b) = (a \<le> b)"
| "pf_le PosInf b = False"
| "pf_le (Finite a) NegInf = False"

subsection \<open>The backend as seen by \<^verbatim>\<open>requests.post\<close>\<close>

text \<open>
  A call of \<^verbatim>\<open>requests.post\<close> either returns a response with a status code, or raises
  a \<^verbatim>\<open>requests.exceptions.RequestException\<close> (connection error, timeout), or raises
  something else. Both \<^verbatim>\<open>send_alert\<close> methods catch the two kinds of exception and
  return \<^verbatim>\<open>False\<close>.
\<close>

datatype http_reply = Status int | Request_Exception | Other_Exception

text \<open>
  The JSON body handed to \<^verbatim>\<open>requests.post\<close> for \<^verbatim>\<open>/api/alert\<close>. The
  \<^verbatim>\<open>timestamp\<close> field (a reading of \<^verbatim>\<open>datetime.now()\<close>) and the encoded still are
  left out: no claim reads them. The confidence is \<^verbatim>\<open>float(confidence)\<close>.
\<close>

record alert =
  camera_id_of :: string
  confidence_of :: pyfloat
  detection_type_of :: string

subsection \<open>\<^verbatim>\<open>EnhancedDetectionService\<close>: state and \<^verbatim>\<open>send_alert\<close>\<close>

record service =
  confidence_threshold :: real
  alert_threshold :: real
  camera_id :: string
  cooldown_seconds :: int
  detection_count :: int
  last_gun_alert :: real
  last_knife_alert :: real

text \<open>\<^verbatim>\<open>__init__\<close>: the alert threshold is the literal 0.7, both clocks start at 0.\<close>

definition init_service :: "real \<Rightarrow> string \<Rightarrow> int \<Rightarrow> service" where
  "init_service conf_thr cam cooldown =
     \<lparr>confidence_threshold = conf_thr, alert_threshold = 0.7, camera_id = cam,
      cooldown_seconds = cooldown, detection_count = 0,
      last_gun_alert = 0, last_knife_alert = 0\<rparr>"

text \<open>
  \<^verbatim>\<open>last_alert_time = self.last_gun_alert if detection_type == 'gun' else self.last_knife_alert\<close>
\<close>

definition last_alert_time :: "service \<Rightarrow> string \<Rightarrow> real" where
  "last_alert_time s detection_type =
     (if detection_type = ''gun'' then last_gun_alert s else last_knife_alert s)"

text \<open>The cooldown test \<^verbatim>\<open>current_time - last_alert_time < self.cooldown_seconds\<close>.\<close>

definition cooldown_active :: "service \<Rightarrow> string \<Rightarrow> real \<Rightarrow> bool" where
  "cooldown_active s detection_type current_time =
     (current_time - last_alert_time s detection_type < real_of_int (cooldown_seconds s))"

text \<open>The success branch: the clock of the type is set, the counter goes up by one.\<close>

definition mark_sent :: "service \<Rightarrow> string \<Rightarrow> real \<Rightarrow> service" where
  "mark_sent s detection_type current_time =
     (if detection_type = ''gun''
      then s\<lparr>last_gun_alert := current_time, detection_count := detection_count s + 1\<rparr>
      else s\<lparr>last_knife_alert := current_time, detection_count := detection_count s + 1\<rparr>)"

text \<open>
  \<^verbatim>\<open>send_alert(detection_type, confidence, frame)\<close>, given the clock reading
  \<^verbatim>\<open>current_time\<close> and what \<^verbatim>\<open>requests.post\<close> does if it is called. The result is
  the returned boolean, the body handed to \<^verbatim>\<open>requests.post\<close> (if it was called) and the
  service afterwards.
\<close>

definition send_alert ::
  "service \<Rightarrow> string \<Rightarrow> pyfloat \<Rightarrow> real \<Rightarrow> http_reply \<Rightarrow> bool \<times> alert option \<times> service" where
  "send_alert s detection_type confidence current_time reply =
     (if cooldown_active s detection_type current_time then (False, None, s)
      else
        let alert_data = \<lparr>camera_id_of = camera_id s, confidence_of = confidence,
                          detection_type_of = detection_type\<rparr>
        in (case reply of
              Status code \<Rightarrow>
                if code = 200 then (True, Some alert_data, mark_sent s detection_type current_time)
                else (False, Some alert_data, s)
            | Request_Exception \<Rightarrow> (False, Some alert_data, s)
            | Other_Exception \<Rightarrow> (False, Some alert_data, s)))"

text \<open>The \<^verbatim>\<open>/api/status\<close> route returns a snapshot of four fields.\<close>

record status_snapshot =
  status_field :: string
  status_camera_id :: string
  status_detection_count :: int
  status_confidence_threshold :: real

definition status :: "service \<Rightarrow> status_snapshot" where
  "status s = \<lparr>status_field = ''active'', status_camera_id = camera_id s,
               status_detection_count = detection_count s,
               status_confidence_threshold = confidence_threshold s\<rparr>"

text \<open>
  A sequence of \<^verbatim>\<open>send_alert\<close> calls, each with its arguments, its clock reading and
  the backend's reply; the result lists, call by call, what was returned and what was
  posted.
\<close>

type_synonym alert_call = "string \<times> pyfloat \<times> real \<times> http_reply"

fun send_alerts ::
  "service \<Rightarrow> alert_call list \<Rightarrow> (bool \<times> alert option) list \<times> service" where
  "send_alerts s [] = ([], s)"
| "send_alerts s ((detection_type, confidence, current_time, reply) # calls) =
     (case send_alert s detection_type confidence current_time reply of
        (ok, req, s') \<Rightarrow>
          (case send_alerts s' calls of (outs, s'') \<Rightarrow> ((ok, req) # outs, s'')))"

subsection \<open>\<^verbatim>\<open>GunDetectionService\<close>: state and \<^verbatim>\<open>send_alert\<close>\<close>

record gun_service =
  gds_camera_id :: string
  gds_confidence_threshold :: real
  gds_cooldown_seconds :: int
  gds_last_alert_time :: real
  gds_detection_count :: int

definition init_gun_service :: "string \<Rightarrow> real \<Rightarrow> int \<Rightarrow> gun_service" where
  "init_gun_service cam conf_thr cooldown =
     \<lparr>gds_camera_id = cam, gds_confidence_threshold = conf_thr,
      gds_cooldown_seconds = cooldown, gds_last_alert_time = 0, gds_detection_count = 0\<rparr>"

text \<open>One clock, \<^verbatim>\<open>self.last_alert_time\<close>, whatever the detection type.\<close>

definition gds_send_alert ::
  "gun_service \<Rightarrow> string \<Rightarrow> pyfloat \<Rightarrow> real \<Rightarrow> http_reply
     \<Rightarrow> bool \<times> alert option \<times> gun_service" where
  "gds_send_alert g detection_type confidence current_time reply =
     (if current_time - gds_last_alert_time g < real_of_int (gds_cooldown_seconds g)
      then (False, None, g)
      else
        let alert_data = \<lparr>camera_id_of = gds_camera_id g, confidence_of = confidence,
                          detection_type_of = detection_type\<rparr>
        in (case reply of
              Status code \<Rightarrow>
                if code = 200
                then (True, Some alert_data,
                      g\<lparr>gds_last_alert_time := current_time,
                        gds_detection_count := gds_detection_count g + 1\<rparr>)
                else (False, Some alert_data, g)
            | Request_Exception \<Rightarrow> (False, Some alert_data, g)
            | Other_Exception \<Rightarrow> (False, Some alert_data, g)))"

subsection \<open>Python and NumPy helpers\<close>

datatype py_error = ValueError | KeyError | OverflowError | Cv2_Error

text \<open>
  \<^verbatim>\<open>int(x)\<close> on a float truncates towards zero; it raises \<^verbatim>\<open>ValueError\<close> on a NaN
  and \<^verbatim>\<open>OverflowError\<close> on an infinity.
\<close>

fun py_int :: "pyfloat \<Rightarrow> py_error + int" where
  "py_int (Finite x) = Inr (if 0 \<le> x then \<lfloor>x\<rfloor> else \<lceil>x\<rceil>)"
| "py_int NaN = Inl ValueError"
| "py_int PosInf = Inl OverflowError"
| "py_int NegInf = Inl OverflowError"

text \<open>
  \<^verbatim>\<open>conf >= threshold\<close> compares an array element with a Python float. NumPy first
  converts the Python float: to double precision (the float itself) where it promotes by
  value, as NumPy 1 does for scalars, and to the precision of the element (the nearest
  \<^verbatim>\<open>float32\<close> for the YOLO arrays) where the Python float is a weak scalar, as in NumPy 2.
  The conversion is the \<open>promote\<close> field of the runtime below.
\<close>

definition to_double :: "real \<Rightarrow> pyfloat" where
  "to_double x = Finite x"

definition round_half_even :: "real \<Rightarrow> int" where
  "round_half_even x =
     (let f = \<lfloor>x\<rfloor>; d = x - of_int f
      in if d < 1 / 2 then f else if 1 / 2 < d then f + 1 else if even f then f else f + 1)"

text \<open>
  Rounding to \<^verbatim>\<open>float32\<close>: 24 significant bits, exponents from -126 (below that the
  spacing stays that of the subnormal numbers), nearest value with ties to even, overflow
  to an infinity.
\<close>

definition to_single :: "real \<Rightarrow> pyfloat" where
  "to_single x =
     (if x = 0 then Finite 0
      else
        let e = max \<lfloor>log 2 \<bar>x\<bar>\<rfloor> (- 126);
            ulp = 2 powr (of_int e - 23);
            r = of_int (round_half_even (x / ulp)) * ulp
        in if 2 powr 128 \<le> \<bar>r\<bar> then (if 0 < x then PosInf else NegInf) else Finite r)"

text \<open>\<^verbatim>\<open>str.lower()\<close>, on ASCII letters (class names of the models are ASCII).\<close>

definition lower_char :: "char \<Rightarrow> char" where
  "lower_char c =
     (case map_of (zip ''ABCDEFGHIJKLMNOPQRSTUVWXYZ'' ''abcdefghijklmnopqrstuvwxyz'') c of
        Some l \<Rightarrow> l
      | None \<Rightarrow> c)"

definition lower :: "string \<Rightarrow> string" where
  "lower s = map lower_char s"

fun starts_with :: "string \<Rightarrow> string \<Rightarrow> bool" where
  "starts_with [] s = True"
| "starts_with (x # xs) [] = False"
| "starts_with (x # xs) (y # ys) = (x = y \<and> starts_with xs ys)"

text \<open>\<^verbatim>\<open>sub in s\<close> for strings.\<close>

fun str_contains :: "string \<Rightarrow> string \<Rightarrow> bool" where
  "str_contains sub [] = (sub = [])"
| "str_contains sub (c # cs) = (starts_with sub (c # cs) \<or> str_contains sub cs)"

subsection \<open>Frames and drawing\<close>

text \<open>
  A frame is an image (a camera image, or the zero array) with the OpenCV drawing calls
  applied to it so far, in order; the pixels themselves are opaque. Texts are kept by their
  content before formatting. \<open>Label_Background\<close> is the filled rectangle behind a label,
  whose size \<^verbatim>\<open>cv2.getTextSize\<close> derives from the label text.
\<close>

type_synonym color = "nat \<times> nat \<times> nat"
type_synonym point = "int \<times> int"

datatype overlay_text =
    Warning_Text string pyfloat
  | Label_Text string pyfloat
  | Summary_Text nat real
  | Placeholder_Line string

datatype draw_op =
    Put_Text overlay_text point real color nat
  | Rectangle point point color int
  | Label_Background point overlay_text color
  | Circle point int color int

datatype pixels = Camera_Image nat | Zeros

record frame =
  frame_height :: int
  frame_width :: int
  image :: pixels
  drawn :: "draw_op list"

definition draw :: "frame \<Rightarrow> draw_op \<Rightarrow> frame" where
  "draw fr op = fr\<lparr>drawn := drawn fr @ [op]\<rparr>"

text \<open>
  What the libraries do with their arguments: \<open>promote\<close> is NumPy's conversion of a
  Python float that is compared with an array element, and \<open>cv2_accepts\<close> tells whether
  OpenCV carries out a drawing call or raises (as it does for a coordinate that does not
  fit a C \<^verbatim>\<open>int\<close>).
\<close>

record runtime =
  promote :: "real \<Rightarrow> pyfloat"
  cv2_accepts :: "draw_op \<Rightarrow> bool"

text \<open>\<^verbatim>\<open>element >= threshold\<close>\<close>

definition np_ge :: "runtime \<Rightarrow> pyfloat \<Rightarrow> real \<Rightarrow> bool" where
  "np_ge rt element threshold = pf_le (promote rt threshold) element"

text \<open>
  The frames live in a store and the code holds references to them. A sequence of OpenCV
  calls on the frame at \<open>ref\<close> draws into that frame, call by call, until a call is
  refused; the refused call leaves the frame as it is and raises.
\<close>

type_synonym frame_store = "nat \<Rightarrow> frame"

fun cv2_calls ::
  "runtime \<Rightarrow> nat \<Rightarrow> draw_op list \<Rightarrow> frame_store \<Rightarrow> py_error option \<times> frame_store" where
  "cv2_calls rt ref [] store = (None, store)"
| "cv2_calls rt ref (op # ops) store =
     (if cv2_accepts rt op then cv2_calls rt ref ops (store(ref := draw (store ref) op))
      else (Some Cv2_Error, store))"

subsection \<open>\<^verbatim>\<open>EnhancedDetectionService.process_detections\<close>\<close>

text \<open>
  The raw detector result, by the three tests the method makes. A Python list is given by
  the \<^verbatim>\<open>boxes\<close> attribute of each element (\<open>None\<close> when the element has no such
  attribute or it is \<^verbatim>\<open>None\<close>); any other object by its \<^verbatim>\<open>boxes\<close> attribute and by
  the table \<^verbatim>\<open>xyxy[0]\<close> of its \<^verbatim>\<open>xyxy\<close> attribute (which holds one table for each
  image of the inference call, and the call is made with one frame), each \<open>None\<close> when
  absent. A box carries its \<^verbatim>\<open>xyxy\<close> row, its \<^verbatim>\<open>conf\<close> and its \<^verbatim>\<open>cls\<close>.
\<close>

type_synonym box = "(pyfloat \<times> pyfloat \<times> pyfloat \<times> pyfloat) \<times> pyfloat \<times> pyfloat"

datatype raw_result =
    Result_List "box list option list"
  | Result_Object "box list option" "pyfloat list list option"

text \<open>\<^verbatim>\<open>np.hstack([xyxy, conf, cls])\<close>: rows \<^verbatim>\<open>[x1, y1, x2, y2, conf, cls]\<close>.\<close>

definition hstack :: "box list \<Rightarrow> pyfloat list list" where
  "hstack boxes = map (\<lambda>((x1, y1, x2, y2), conf, cls). [x1, y1, x2, y2, conf, cls]) boxes"

text \<open>The \<^verbatim>\<open>if / elif / elif\<close> chain that fills \<^verbatim>\<open>pred\<close>, empty to begin with.\<close>

fun extract_pred :: "raw_result \<Rightarrow> pyfloat list list" where
  "extract_pred (Result_List (Some boxes # rest)) = hstack boxes"
| "extract_pred (Result_List (None # rest)) = []"
| "extract_pred (Result_List []) = []"
| "extract_pred (Result_Object (Some boxes) table) = hstack boxes"
| "extract_pred (Result_Object None (Some table)) = table"
| "extract_pred (Result_Object None None) = []"

text \<open>
  The shape check: a non-empty table whose rows have fewer than six columns is replaced by
  the empty table. A numpy table is rectangular, and \<^verbatim>\<open>pred.shape[1]\<close> is the length
  of its rows; the model admits any list of rows, reads the width off the first row, and
  leaves rows of other lengths to the check the loop makes on each row.
\<close>

definition validate_pred :: "pyfloat list list \<Rightarrow> pyfloat list list" where
  "validate_pred pred =
     (case pred of
        [] \<Rightarrow> []
      | row # rows \<Rightarrow> if 0 < length row \<and> length row < 6 then [] else pred)"

type_synonym detection = "string \<times> pyfloat \<times> (pyfloat \<times> pyfloat \<times> pyfloat \<times> pyfloat)"

text \<open>
  The local variables of the loop, the store that holds the frame being drawn on, and the
  service with the bodies it has handed to \<^verbatim>\<open>requests.post\<close>.
\<close>

record pd_state =
  detections :: "detection list"
  frame_detection_count :: nat
  frames :: frame_store
  svc :: service
  posted :: "alert list"

definition opt_list :: "'a option \<Rightarrow> 'a list" where
  "opt_list x = (case x of None \<Rightarrow> [] | Some a \<Rightarrow> [a])"

definition weapon_classes :: "string list" where
  "weapon_classes = [''gun'', ''knife'', ''guns'', ''knives'']"

definition is_weapon :: "string \<Rightarrow> bool" where
  "is_weapon class_name = list_ex (\<lambda>weapon. str_contains weapon (lower class_name)) weapon_classes"

definition is_gun_type :: "string \<Rightarrow> bool" where
  "is_gun_type class_name =
     list_ex (\<lambda>gun_type. str_contains gun_type (lower class_name)) [''gun'', ''guns'']"

text \<open>
  The branch for a weapon at or above the alert threshold: the alert (when
  \<^verbatim>\<open>send_alerts\<close> is set), then the warning text. The clock reading and the reply to
  the request are those of the moment this detection is processed. The result is the
  exception raised, if any, and the state reached.
\<close>

definition alert_branch ::
  "runtime \<Rightarrow> nat \<Rightarrow> bool \<Rightarrow> real \<times> http_reply \<Rightarrow> string \<Rightarrow> pyfloat \<Rightarrow> pd_state
     \<Rightarrow> py_error option \<times> pd_state" where
  "alert_branch rt ref alerts_on env class_name conf st =
     (let weapon_type = (if is_gun_type class_name then ''gun'' else ''knife'');
          alert_color = (if is_gun_type class_name then (0, 0, 255) else (0, 165, 255));
          st1 = (if alerts_on
                 then (case send_alert (svc st) weapon_type conf (fst env) (snd env) of
                         (ok, req, s') \<Rightarrow> st\<lparr>svc := s', posted := posted st @ opt_list req\<rparr>)
                 else st)
      in case cv2_calls rt ref
                [Put_Text (Warning_Text weapon_type conf)
                   (10, 60 + 20 * int (frame_detection_count st1)) 0.7 alert_color 2]
                (frames st1) of
           (err, store') \<Rightarrow> (err, st1\<lparr>frames := store'\<rparr>))"

definition box_style :: "runtime \<Rightarrow> service \<Rightarrow> string \<Rightarrow> pyfloat \<Rightarrow> color \<times> int" where
  "box_style rt s class_name conf =
     (if is_weapon class_name then
        if np_ge rt conf (alert_threshold s)
        then (if is_gun_type class_name then ((0, 0, 255), 3) else ((0, 165, 255), 3))
        else (if is_gun_type class_name then ((0, 0, 180), 2) else ((0, 140, 220), 2))
      else ((128, 128, 128), 1))"

text \<open>\<^verbatim>\<open>x1, y1, x2, y2 = map(int, [x1, y1, x2, y2])\<close>: the first conversion that fails raises.\<close>

definition int_box ::
  "pyfloat \<times> pyfloat \<times> pyfloat \<times> pyfloat \<Rightarrow> py_error + (int \<times> int \<times> int \<times> int)" where
  "int_box bbox =
     (case bbox of (x1, y1, x2, y2) \<Rightarrow>
        (case py_int x1 of Inl e \<Rightarrow> Inl e | Inr i1 \<Rightarrow>
        (case py_int y1 of Inl e \<Rightarrow> Inl e | Inr j1 \<Rightarrow>
        (case py_int x2 of Inl e \<Rightarrow> Inl e | Inr i2 \<Rightarrow>
        (case py_int y2 of Inl e \<Rightarrow> Inl e | Inr j2 \<Rightarrow> Inr (i1, j1, i2, j2))))))"

text \<open>Box, label background, label text and centre dot, in the order of the calls.\<close>

definition box_calls ::
  "string \<Rightarrow> pyfloat \<Rightarrow> int \<times> int \<times> int \<times> int \<Rightarrow> color \<times> int \<Rightarrow> draw_op list" where
  "box_calls class_name conf ibox style =
     (case ibox of (x1, y1, x2, y2) \<Rightarrow>
        (case style of (color, thickness) \<Rightarrow>
           [Rectangle (x1, y1) (x2, y2) color thickness,
            Label_Background (x1, y1) (Label_Text class_name conf) color,
            Put_Text (Label_Text class_name conf) (x1, y1 - 5) 0.5 (255, 255, 255) 2,
            Circle ((x1 + x2) div 2, (y1 + y2) div 2) 3 color (- 1)]))"

text \<open>
  The body of \<^verbatim>\<open>if conf >= self.confidence_threshold\<close>: the detection is counted and
  appended, the coordinates are converted, a weapon at or above the alert threshold goes
  through the alert branch, and the box is drawn. An exception ends the body where it is
  raised; what was done before it stays done.
\<close>

definition annotate_detection ::
  "runtime \<Rightarrow> nat \<Rightarrow> bool \<Rightarrow> real \<times> http_reply \<Rightarrow> string \<Rightarrow> pyfloat
     \<Rightarrow> pyfloat \<times> pyfloat \<times> pyfloat \<times> pyfloat \<Rightarrow> pd_state \<Rightarrow> py_error option \<times> pd_state" where
  "annotate_detection rt ref alerts_on env class_name conf bbox st =
     (let st1 = st\<lparr>frame_detection_count := frame_detection_count st + 1,
                  detections := detections st @ [(class_name, conf, bbox)]\<rparr>
      in case int_box bbox of
           Inl e \<Rightarrow> (Some e, st1)
         | Inr ibox \<Rightarrow>
             (case (if is_weapon class_name \<and> np_ge rt conf (alert_threshold (svc st1))
                    then alert_branch rt ref alerts_on env class_name conf st1
                    else (None, st1)) of
                (Some e, st2) \<Rightarrow> (Some e, st2)
              | (None, st2) \<Rightarrow>
                  (case cv2_calls rt ref
                          (box_calls class_name conf ibox (box_style rt (svc st1) class_name conf))
                          (frames st2) of
                     (err, store') \<Rightarrow> (err, st2\<lparr>frames := store'\<rparr>))))"

text \<open>
  One turn of \<^verbatim>\<open>for i, detection in enumerate(pred)\<close>. A row of fewer than six
  fields is skipped; the unpacking into six names raises \<^verbatim>\<open>ValueError\<close> on a longer
  row; \<^verbatim>\<open>int(cls)\<close> stands before the \<^verbatim>\<open>try\<close> and raises on a NaN or an infinity;
  a class index without a name (\<^verbatim>\<open>KeyError\<close>, caught) skips the row.
\<close>

definition process_row ::
  "runtime \<Rightarrow> nat \<Rightarrow> bool \<Rightarrow> (int \<rightharpoonup> string) \<Rightarrow> real \<times> http_reply \<Rightarrow> pyfloat list \<Rightarrow> pd_state
     \<Rightarrow> py_error option \<times> pd_state" where
  "process_row rt ref alerts_on names env detection st =
     (if length detection < 6 then (None, st)
      else if 6 < length detection then (Some ValueError, st)
      else
        (case py_int (detection ! 5) of
           Inl e \<Rightarrow> (Some e, st)
         | Inr class_id \<Rightarrow>
             (case names class_id of
                None \<Rightarrow> (None, st)
              | Some class_name \<Rightarrow>
                  if np_ge rt (detection ! 4) (confidence_threshold (svc st))
                  then annotate_detection rt ref alerts_on env class_name (detection ! 4)
                         (detection ! 0, detection ! 1, detection ! 2, detection ! 3) st
                  else (None, st))))"

text \<open>
  The loop: it ends with the first exception. \<open>env i\<close> is the clock reading and the reply
  to the request while row \<open>i\<close> is processed.
\<close>

fun process_rows ::
  "runtime \<Rightarrow> nat \<Rightarrow> bool \<Rightarrow> (int \<rightharpoonup> string) \<Rightarrow> (nat \<Rightarrow> real \<times> http_reply) \<Rightarrow> nat
     \<Rightarrow> pyfloat list list \<Rightarrow> pd_state \<Rightarrow> py_error option \<times> pd_state" where
  "process_rows rt ref alerts_on names env i [] st = (None, st)"
| "process_rows rt ref alerts_on names env i (detection # rest) st =
     (case process_row rt ref alerts_on names (env i) detection st of
        (Some e, st') \<Rightarrow> (Some e, st')
      | (None, st') \<Rightarrow> process_rows rt ref alerts_on names env (Suc i) rest st')"

definition summary_call :: "nat \<Rightarrow> pd_state \<Rightarrow> draw_op" where
  "summary_call ref st =
     Put_Text (Summary_Text (frame_detection_count st) (confidence_threshold (svc st)))
       (10, frame_height (frames st ref) - 40) 0.5 (255, 255, 255) 2"

text \<open>
  \<^verbatim>\<open>process_detections(results, frame, model, send_alerts)\<close>, where \<open>ref\<close> is the
  reference held in \<^verbatim>\<open>frame\<close>: what the call returns (the detection list, or the
  exception it raises), the store afterwards, the service afterwards, and the bodies it
  handed to \<^verbatim>\<open>requests.post\<close>.
\<close>

record pd_result =
  returned :: "py_error + detection list"
  store_after :: frame_store
  service_after :: service
  requests :: "alert list"

definition process_detections ::
  "runtime \<Rightarrow> service \<Rightarrow> raw_result \<Rightarrow> frame_store \<Rightarrow> nat \<Rightarrow> (int \<rightharpoonup> string) \<Rightarrow> bool
     \<Rightarrow> (nat \<Rightarrow> real \<times> http_reply) \<Rightarrow> pd_result" where
  "process_detections rt s results store ref names alerts_on env =
     (case process_rows rt ref alerts_on names env 0 (validate_pred (extract_pred results))
             \<lparr>detections = [], frame_detection_count = 0, frames = store, svc = s,
              posted = []\<rparr> of
        (Some e, st) \<Rightarrow>
          \<lparr>returned = Inl e, store_after = frames st, service_after = svc st,
           requests = posted st\<rparr>
      | (None, st) \<Rightarrow>
          (case cv2_calls rt ref [summary_call ref st] (frames st) of
             (Some e, store') \<Rightarrow>
               \<lparr>returned = Inl e, store_after = store', service_after = svc st,
                requests = posted st\<rparr>
           | (None, store') \<Rightarrow>
               \<lparr>returned = Inr (detections st), store_after = store', service_after = svc st,
                requests = posted st\<rparr>))"

text \<open>
  The part of \<^verbatim>\<open>run_detection\<close> that concerns detections: for every frame read from
  the camera (given by its reference) and every inference result,
  \<^verbatim>\<open>process_detections\<close> is called with \<^verbatim>\<open>send_alerts=True\<close>; an exception it raises
  is caught and the loop goes on with the next frame. The service and the store carry
  over from frame to frame.
\<close>

fun detect_frames ::
  "runtime \<Rightarrow> service \<Rightarrow> (int \<rightharpoonup> string) \<Rightarrow> frame_store
     \<Rightarrow> (raw_result \<times> nat \<times> (nat \<Rightarrow> real \<times> http_reply)) list \<Rightarrow> pd_result list \<times> service" where
  "detect_frames rt s names store [] = ([], s)"
| "detect_frames rt s names store ((results, ref, env) # rest) =
     (let r = process_detections rt s results store ref names True env
      in case detect_frames rt (service_after r) names (store_after r) rest of
           (rs, s') \<Rightarrow> (r # rs, s'))"

subsection \<open>\<^verbatim>\<open>GunDetectionService.process_detections\<close>\<close>






section \<open>Streaming\<close>

text \<open>
  One part of the \<^verbatim>\<open>multipart/x-mixed-replace; boundary=frame\<close> response. Bytes are
  characters; \<open>CHR 0x0D\<close> and \<open>CHR 0x0A\<close> are carriage return and line feed.
\<close>

definition multipart_chunk :: "string \<Rightarrow> string" where
  "multipart_chunk jpeg =
     ''--frame'' @ [CHR 0x0D, CHR 0x0A] @ ''Content-Type: image/jpeg''
       @ [CHR 0x0D, CHR 0x0A, CHR 0x0D, CHR 0x0A] @ jpeg @ [CHR 0x0D, CHR 0x0A]"

subsection \<open>\<^verbatim>\<open>working_video_stream.generate_frames\<close>\<close>

definition jpeg_quality :: "string \<Rightarrow> nat" where
  "jpeg_quality quality =
     (if quality = ''low'' then 50
      else if quality = ''medium'' then 70
      else if quality = ''high'' then 90
      else 85)"

text \<open>\<^verbatim>\<open>create_placeholder_frame\<close>; \<open>stamp\<close> is the \<^verbatim>\<open>time.strftime\<close> line.\<close>

definition create_placeholder_frame :: "string \<Rightarrow> frame" where
  "create_placeholder_frame stamp =
     \<lparr>frame_height = 480, frame_width = 640, image = Zeros,
      drawn = map (\<lambda>(i, line). Put_Text (Placeholder_Line line) (50, 180 + i * 40) 0.8
                                  (128, 128, 128) 2)
                (zip [0, 1, 2, 3]
                   [''AlertMatrix Video Stream'', ''Camera Not Available'',
                    ''Please check camera connection'', stamp])\<rparr>"

text \<open>
  One turn of the \<^verbatim>\<open>while True\<close> loop, given what \<^verbatim>\<open>current_frame\<close> holds at that
  moment. \<open>imencode\<close> is \<^verbatim>\<open>cv2.imencode('.jpg', _, [IMWRITE_JPEG_QUALITY, q])\<close>:
  \<open>None\<close> when it reports failure. The result is the part yielded in this turn, if any.
\<close>

definition wvs_generate_turn ::
  "(frame \<Rightarrow> nat \<Rightarrow> string option) \<Rightarrow> string \<Rightarrow> string \<Rightarrow> frame option \<Rightarrow> string option" where
  "wvs_generate_turn imencode quality stamp current_frame =
     (case current_frame of
        Some fr \<Rightarrow> map_option multipart_chunk (imencode fr (jpeg_quality quality))
      | None \<Rightarrow> map_option multipart_chunk (imencode (create_placeholder_frame stamp) 85))"

text \<open>
  The generator over its first turns: \<open>obs\<close> lists, turn by turn, the wall-clock line and
  the content of \<^verbatim>\<open>current_frame\<close>; the result lists the parts yielded so far.
\<close>

definition wvs_generate_frames ::
  "(frame \<Rightarrow> nat \<Rightarrow> string option) \<Rightarrow> string \<Rightarrow> (string \<times> frame option) list \<Rightarrow> string list" where
  "wvs_generate_frames imencode quality obs =
     List.map_filter (\<lambda>(stamp, current_frame).
        wvs_generate_turn imencode quality stamp current_frame) obs"

subsection \<open>\<^verbatim>\<open>EnhancedDetectionService.generate_frames\<close>\<close>

text \<open>No \<^verbatim>\<open>else\<close> branch: while \<^verbatim>\<open>current_frame\<close> is \<^verbatim>\<open>None\<close> a turn only sleeps.\<close>

definition generate_turn ::
  "(frame \<Rightarrow> nat \<Rightarrow> string option) \<Rightarrow> frame option \<Rightarrow> string option" where
  "generate_turn imencode current_frame =
     (case current_frame of
        Some fr \<Rightarrow> map_option multipart_chunk (imencode fr 85)
      | None \<Rightarrow> None)"

definition generate_frames ::
  "(frame \<Rightarrow> nat \<Rightarrow> string option) \<Rightarrow> frame option list \<Rightarrow> string list" where
  "generate_frames imencode obs = List.map_filter (generate_turn imencode) obs"

section \<open>\<^verbatim>\<open>VideoStreamer\<close>: opening the camera\<close>

text \<open>
  \<^verbatim>\<open>cv2.VideoCapture(idx)\<close> gives a capture that is open, or one that is not, or raises.
  A capture object remembers its device and whether it is open.
\<close>

datatype open_result = Opened | Not_Opened | Open_Raised

record capture =
  device :: int
  is_opened :: bool

record streamer =
  cap :: "capture option"
  running :: bool
  camera_index :: int
  fallback_indexes :: "int list"

definition init_streamer :: streamer where
  "init_streamer = \<lparr>cap = None, running = False, camera_index = 0, fallback_indexes = [0, 1, 2]\<rparr>"

text \<open>\<^verbatim>\<open>self.cap is not None and self.cap.isOpened()\<close>\<close>

definition cap_is_open :: "streamer \<Rightarrow> bool" where
  "cap_is_open s = (case cap s of None \<Rightarrow> False | Some c \<Rightarrow> is_opened c)"

text \<open>
  The loop over \<^verbatim>\<open>self.fallback_indexes\<close>. The result is the returned boolean, the
  indices handed to \<^verbatim>\<open>cv2.VideoCapture\<close> in order, and the streamer afterwards.
\<close>

fun try_fallbacks ::
  "(int \<Rightarrow> open_result) \<Rightarrow> int list \<Rightarrow> streamer \<Rightarrow> bool \<times> int list \<times> streamer" where
  "try_fallbacks dev [] s = (False, [], s)"
| "try_fallbacks dev (idx # rest) s =
     (if idx = camera_index s then try_fallbacks dev rest s
      else
        (case dev idx of
           Opened \<Rightarrow>
             (True, [idx], s\<lparr>cap := Some \<lparr>device = idx, is_opened = True\<rparr>, camera_index := idx\<rparr>)
         | Not_Opened \<Rightarrow>
             (case try_fallbacks dev rest (s\<lparr>cap := Some \<lparr>device = idx, is_opened = False\<rparr>\<rparr>) of
                (ok, tried, s') \<Rightarrow> (ok, idx # tried, s'))
         | Open_Raised \<Rightarrow>
             (case try_fallbacks dev rest s of (ok, tried, s') \<Rightarrow> (ok, idx # tried, s'))))"

definition initialize_camera ::
  "(int \<Rightarrow> open_result) \<Rightarrow> bool \<Rightarrow> streamer \<Rightarrow> bool \<times> int list \<times> streamer" where
  "initialize_camera dev try_alternatives s =
     (if cap_is_open s then (True, [], s)
      else
        (case dev (camera_index s) of
           Opened \<Rightarrow>
             (True, [camera_index s],
              s\<lparr>cap := Some \<lparr>device = camera_index s, is_opened = True\<rparr>\<rparr>)
         | r \<Rightarrow>
             let s1 = (if r = Not_Opened
                       then s\<lparr>cap := Some \<lparr>device = camera_index s, is_opened = False\<rparr>\<rparr>
                       else s)
             in if try_alternatives
                then (case try_fallbacks dev (fallback_indexes s1) s1 of
                        (ok, tried, s') \<Rightarrow> (ok, camera_index s # tried, s'))
                else (False, [camera_index s], s1)))"

text \<open>
  The head of a turn of \<^verbatim>\<open>_capture_loop\<close>: when the capture is missing or closed, the
  camera is initialised again.
\<close>

definition reconnect_if_lost ::
  "(int \<Rightarrow> open_result) \<Rightarrow> streamer \<Rightarrow> bool \<times> int list \<times> streamer" where
  "reconnect_if_lost dev s =
     (if \<not> cap_is_open s then initialize_camera dev True s else (True, [], s))"

text \<open>The camera going away: the capture object stays, \<^verbatim>\<open>isOpened()\<close> turns false.\<close>

definition connection_lost :: "streamer \<Rightarrow> streamer" where
  "connection_lost s = s\<lparr>cap := map_option (\<lambda>c. c\<lparr>is_opened := False\<rparr>) (cap s)\<rparr>"

section \<open>The specification's words, and sample inputs\<close>

text \<open>The specification's reading of an accepted request: any status from 200 to 299.\<close>

definition is_2xx :: "int \<Rightarrow> bool" where
  "is_2xx code = (200 \<le> code \<and> code < 300)"

text \<open>What the detection loop keeps fixed in the service.\<close>

definition same_config :: "service \<Rightarrow> service \<Rightarrow> bool" where
  "same_config s s' =
     (confidence_threshold s' = confidence_threshold s \<and> alert_threshold s' = alert_threshold s
      \<and> cooldown_seconds s' = cooldown_seconds s \<and> camera_id s' = camera_id s)"

text \<open>The store \<open>store'\<close> is \<open>store\<close> with drawings added to the frame at \<open>ref\<close>.\<close>

definition drawn_on :: "nat \<Rightarrow> frame_store \<Rightarrow> frame_store \<Rightarrow> bool" where
  "drawn_on ref store store' =
     (\<exists>ops. store' = store(ref := (store ref)\<lparr>drawn := drawn (store ref) @ ops\<rparr>))"

text \<open>
  The alert a table row calls for, in the words of the specification: the row is a
  detection (six fields, a class index with a name, a confidence that passes the display
  threshold) of a weapon class, its confidence passes the alert threshold, and its box has
  integer coordinates. The alert goes out under the weapon type, with the row's confidence.
\<close>

definition alert_of_row ::
  "runtime \<Rightarrow> service \<Rightarrow> (int \<rightharpoonup> string) \<Rightarrow> pyfloat list \<Rightarrow> (string \<times> pyfloat) option" where
  "alert_of_row rt s names row =
     (if length row = 6 then
        (case py_int (row ! 5) of
           Inl e \<Rightarrow> None
         | Inr class_id \<Rightarrow>
             (case names class_id of
                None \<Rightarrow> None
              | Some class_name \<Rightarrow>
                  (case int_box (row ! 0, row ! 1, row ! 2, row ! 3) of
                     Inl e \<Rightarrow> None
                   | Inr ibox \<Rightarrow>
                       if np_ge rt (row ! 4) (confidence_threshold s)
                          \<and> np_ge rt (row ! 4) (alert_threshold s) \<and> is_weapon class_name
                       then Some (if is_gun_type class_name then ''gun'' else ''knife'', row ! 4)
                       else None)))
      else None)"

text \<open>
  Sending the alerts that the rows call for, one \<^verbatim>\<open>send_alert\<close> per alert in the order
  of the rows, from a service and the list of bodies handed to \<^verbatim>\<open>requests.post\<close> so far.
\<close>

definition row_alert ::
  "runtime \<Rightarrow> (int \<rightharpoonup> string) \<Rightarrow> real \<times> http_reply \<Rightarrow> pyfloat list \<Rightarrow> service \<times> alert list
     \<Rightarrow> service \<times> alert list" where
  "row_alert rt names env row acc =
     (case alert_of_row rt (fst acc) names row of
        None \<Rightarrow> acc
      | Some (weapon_type, conf) \<Rightarrow>
          (case send_alert (fst acc) weapon_type conf (fst env) (snd env) of
             (ok, req, s') \<Rightarrow> (s', snd acc @ opt_list req)))"

fun row_alerts ::
  "runtime \<Rightarrow> (int \<rightharpoonup> string) \<Rightarrow> (nat \<Rightarrow> real \<times> http_reply) \<Rightarrow> nat \<Rightarrow> pyfloat list list
     \<Rightarrow> service \<times> alert list \<Rightarrow> service \<times> alert list" where
  "row_alerts rt names env i [] acc = acc"
| "row_alerts rt names env i (row # rows) acc =
     row_alerts rt names env (Suc i) rows (row_alert rt names (env i) row acc)"

text \<open>
  Two sample runtimes. Both refuse a drawing call with a coordinate outside the range of a
  C \<^verbatim>\<open>int\<close>; the first compares in double precision, the second in \<^verbatim>\<open>float32\<close>.
\<close>

definition fits_c_int :: "int \<Rightarrow> bool" where
  "fits_c_int i = (- 2147483648 \<le> i \<and> i < 2147483648)"

fun c_int_arguments :: "draw_op \<Rightarrow> bool" where
  "c_int_arguments (Put_Text t (x, y) scale color thickness) = (fits_c_int x \<and> fits_c_int y)"
| "c_int_arguments (Rectangle (x1, y1) (x2, y2) color thickness) =
     (fits_c_int x1 \<and> fits_c_int y1 \<and> fits_c_int x2 \<and> fits_c_int y2)"
| "c_int_arguments (Label_Background (x, y) t color) = (fits_c_int x \<and> fits_c_int y)"
| "c_int_arguments (Circle (x, y) radius color thickness) = (fits_c_int x \<and> fits_c_int y)"

definition numpy1 :: runtime where
  "numpy1 = \<lparr>promote = to_double, cv2_accepts = c_int_arguments\<rparr>"

definition numpy2 :: runtime where
  "numpy2 = \<lparr>promote = to_single, cv2_accepts = c_int_arguments\<rparr>"

text \<open>A model with the two classes of the weapon detector.\<close>

definition gun_knife_names :: "int \<rightharpoonup> string" where
  "gun_knife_names = [0 \<mapsto> ''gun'', 1 \<mapsto> ''knife'']"

text \<open>A YOLOv5-style result with one box of class 0 at the given confidence.\<close>

definition one_box :: "pyfloat \<Rightarrow> raw_result" where
  "one_box conf =
     Result_Object None (Some [[Finite 100, Finite 120, Finite 220, Finite 360, conf, Finite 0]])"


text \<open>A table with one row of seven fields.\<close>

definition seven_fields :: raw_result where
  "seven_fields = Result_Object None
     (Some [[Finite 100, Finite 120, Finite 220, Finite 360, Finite 0.9, Finite 0, Finite 7]])"

text \<open>Surroundings in which the clock reads \<open>t\<close> and every request is answered by \<open>r\<close>.\<close>

definition steady_env :: "real \<Rightarrow> http_reply \<Rightarrow> nat \<Rightarrow> real \<times> http_reply" where
  "steady_env t r i = (t, r)"

definition camera_frame :: frame where
  "camera_frame = \<lparr>frame_height = 480, frame_width = 640, image = Camera_Image 0, drawn = []\<rparr>"

text \<open>A store in which every reference holds a fresh camera frame.\<close>

definition camera_frames :: frame_store where
  "camera_frames ref = camera_frame"

text \<open>An encoder that always succeeds.\<close>

definition encoder_ok :: "frame \<Rightarrow> nat \<Rightarrow> string option" where
  "encoder_ok fr q = Some ''JPEG''"

text \<open>Devices of which only index 2 opens.\<close>

definition only_device_2 :: "int \<Rightarrow> open_result" where
  "only_device_2 idx = (if idx = 2 then Opened else Not_Opened)"

section \<open>Properties of \<^verbatim>\<open>send_alert\<close>\<close>

lemma send_alert_suppressed:
  "cooldown_active s dt now \<Longrightarrow> send_alert s dt c now reply = (False, None, s)"
  by (simp add: send_alert_def)

lemma send_alert_accepted:
  "\<not> cooldown_active s dt now \<Longrightarrow>
   send_alert s dt c now (Status 200) =
     (True, Some \<lparr>camera_id_of = camera_id s, confidence_of = c, detection_type_of = dt\<rparr>,
      mark_sent s dt now)"
  by (simp add: send_alert_def)

lemma send_alert_not_accepted:
  "reply \<noteq> Status 200 \<Longrightarrow>
   fst (send_alert s dt c now reply) = False \<and> snd (snd (send_alert s dt c now reply)) = s"
  by (cases reply) (simp_all add: send_alert_def Let_def)

lemma send_alert_count:
  "detection_count (snd (snd (send_alert s dt c now reply))) =
     detection_count s + (if fst (send_alert s dt c now reply) then 1 else 0)"
  by (cases reply) (simp_all add: send_alert_def Let_def mark_sent_def)

lemma send_alert_returns:
  "fst (send_alert s dt c now reply) = (\<not> cooldown_active s dt now \<and> reply = Status 200)"
  by (cases reply) (simp_all add: send_alert_def Let_def)

lemma send_alerts_count:
  "detection_count (snd (send_alerts s calls)) =
     detection_count s + int (count_list (map fst (fst (send_alerts s calls))) True)"
proof (induction calls arbitrary: s)
  case Nil
  show ?case by simp
next
  case (Cons call calls)
  obtain dt c now reply where call: "call = (dt, c, now, reply)"
    by (cases call) auto
  obtain ok req s' where st: "send_alert s dt c now reply = (ok, req, s')"
    by (cases "send_alert s dt c now reply") auto
  obtain outs s'' where rest: "send_alerts s' calls = (outs, s'')"
    by (cases "send_alerts s' calls") auto
  have "detection_count s' = detection_count s + (if ok then 1 else 0)"
    using send_alert_count[of s dt c now reply] st by simp
  moreover have "detection_count s'' = detection_count s' + int (count_list (map fst outs) True)"
    using Cons.IH[of s'] rest by simp
  ultimately show ?case
    using call st rest by simp
qed

lemma send_alert_config:
  "cooldown_seconds (snd (snd (send_alert s dt c now reply))) = cooldown_seconds s
   \<and> alert_threshold (snd (snd (send_alert s dt c now reply))) = alert_threshold s
   \<and> confidence_threshold (snd (snd (send_alert s dt c now reply))) = confidence_threshold s
   \<and> camera_id (snd (snd (send_alert s dt c now reply))) = camera_id s"
  by (cases reply) (simp_all add: send_alert_def Let_def mark_sent_def)

lemma send_alert_request:
  "fst (snd (send_alert s dt c now reply)) =
     (if cooldown_active s dt now then None
      else Some \<lparr>camera_id_of = camera_id s, confidence_of = c, detection_type_of = dt\<rparr>)"
  by (cases reply) (simp_all add: send_alert_def Let_def)

lemma send_alert_clock_mono:
  assumes "0 \<le> cooldown_seconds s"
  shows "last_alert_time s dt \<le> last_alert_time (snd (snd (send_alert s dt' c now reply))) dt"
  using assms
  by (cases reply)
     (auto simp add: send_alert_def Let_def mark_sent_def last_alert_time_def cooldown_active_def)

lemma send_alerts_suppressed_after:
  assumes "0 \<le> cooldown_seconds s" and "t \<le> last_alert_time s dt"
    and "i < length calls" and "calls ! i = (dt, c, t', reply)"
    and "t' - t < real_of_int (cooldown_seconds s)"
  shows "fst (send_alerts s calls) ! i = (False, None)"
  using assms
proof (induction calls arbitrary: s i)
  case Nil
  then show ?case by simp
next
  case (Cons call calls)
  obtain dt0 c0 now0 reply0 where call: "call = (dt0, c0, now0, reply0)"
    by (cases call) auto
  obtain ok req s' where st: "send_alert s dt0 c0 now0 reply0 = (ok, req, s')"
    by (cases "send_alert s dt0 c0 now0 reply0") auto
  obtain outs s'' where rest: "send_alerts s' calls = (outs, s'')"
    by (cases "send_alerts s' calls") auto
  show ?case
  proof (cases i)
    case 0
    then have same: "dt0 = dt" "c0 = c" "now0 = t'" "reply0 = reply"
      using Cons.prems(4) call by simp_all
    have "cooldown_active s dt t'"
      using Cons.prems(2,5) by (simp add: cooldown_active_def)
    then have "send_alert s dt c t' reply = (False, None, s)"
      by (rule send_alert_suppressed)
    then show ?thesis
      using 0 call same st rest by simp
  next
    case (Suc j)
    have s': "s' = snd (snd (send_alert s dt0 c0 now0 reply0))"
      using st by simp
    have cd: "cooldown_seconds s' = cooldown_seconds s"
      using send_alert_config[of s dt0 c0 now0 reply0] s' by simp
    have "last_alert_time s dt \<le> last_alert_time s' dt"
      using send_alert_clock_mono[OF Cons.prems(1), of dt dt0 c0 now0 reply0] s' by simp
    then have le: "t \<le> last_alert_time s' dt"
      using Cons.prems(2) by simp
    have "fst (send_alerts s' calls) ! j = (False, None)"
      using Cons.IH[of s' j] Cons.prems Suc cd le by simp
    then show ?thesis
      using Suc call st rest by simp
  qed
qed

lemma mark_sent_clock: "last_alert_time (mark_sent s dt now) dt = now"
  by (simp add: mark_sent_def last_alert_time_def)

text \<open>
  C2. When the dispatch fails (the backend answers anything but 200, or the request raises),
  \<^verbatim>\<open>send_alert\<close> of either service returns \<^verbatim>\<open>False\<close> and leaves the service as it was:
  the stored last-alert time of the class is unchanged, so the cooldown test of any later
  attempt gives what it would have given without the failed attempt.
\<close>

theorem failed_dispatch_keeps_clock:
  assumes "reply \<noteq> Status 200"
  shows "fst (send_alert s dt c now reply) = False
       \<and> snd (snd (send_alert s dt c now reply)) = s
       \<and> last_alert_time (snd (snd (send_alert s dt c now reply))) dt = last_alert_time s dt
       \<and> cooldown_active (snd (snd (send_alert s dt c now reply))) dt later
           = cooldown_active s dt later
       \<and> fst (gds_send_alert g dt c now reply) = False
       \<and> snd (snd (gds_send_alert g dt c now reply)) = g"
  using assms by (cases reply) (simp_all add: send_alert_def gds_send_alert_def Let_def)

theorem failed_dispatch_keeps_clock_witness:
  "Status 503 \<noteq> Status 200
   \<and> snd (snd (send_alert (init_service 0.5 ''webcam-01'' 10) ''gun'' (Finite 0.9) 100 (Status 503)))
       = init_service 0.5 ''webcam-01'' 10
   \<and> snd (snd (gds_send_alert (init_gun_service ''webcam-01'' 0.5 10) ''gun'' (Finite 0.9) 100
                 (Status 503)))
       = init_gun_service ''webcam-01'' 0.5 10"
  using failed_dispatch_keeps_clock
          [of "Status 503" "init_service 0.5 ''webcam-01'' 10" "''gun''" "Finite 0.9" 100 _
              "init_gun_service ''webcam-01'' 0.5 10"]
  by simp

text \<open>
  C9, as the claim states it, fails: a request answered with status 201, outside any
  cooldown, is reported as failed although 201 is a 2xx status.
\<close>

theorem success_iff_2xx_counterexample:
  "\<not> cooldown_active (init_service 0.5 ''webcam-01'' 10) ''gun'' 100
   \<and> fst (send_alert (init_service 0.5 ''webcam-01'' 10) ''gun'' (Finite 0.9) 100 (Status 201))
       \<noteq> is_2xx 201"
  by (simp add: send_alert_def init_service_def cooldown_active_def last_alert_time_def
        is_2xx_def)

text \<open>
  C9, amended. An attempted dispatch (one not suppressed by the cooldown) reports success
  if and only if the backend's status is exactly 200. For every other status and for every
  exception of the request, \<^verbatim>\<open>send_alert\<close> returns \<^verbatim>\<open>False\<close> (it returns: the
  exceptions are caught) and the service is unchanged.
\<close>

theorem success_iff_status_200:
  assumes "\<not> cooldown_active s dt now"
  shows "fst (send_alert s dt c now reply) = (reply = Status 200)
       \<and> (reply \<noteq> Status 200 \<longrightarrow>
            send_alert s dt c now reply =
              (False,
               Some \<lparr>camera_id_of = camera_id s, confidence_of = c, detection_type_of = dt\<rparr>,
               s))"
  using assms by (cases reply) (simp_all add: send_alert_def Let_def)

theorem success_iff_status_200_witness:
  "\<not> cooldown_active (init_service 0.5 ''webcam-01'' 10) ''knife'' 100
   \<and> fst (send_alert (init_service 0.5 ''webcam-01'' 10) ''knife'' (Finite 0.8) 100 (Status 200))
   \<and> \<not> fst (send_alert (init_service 0.5 ''webcam-01'' 10) ''knife'' (Finite 0.8) 100 (Status 404))
   \<and> \<not> fst (send_alert (init_service 0.5 ''webcam-01'' 10) ''knife'' (Finite 0.8) 100 Request_Exception)"
proof -
  have free: "\<not> cooldown_active (init_service 0.5 ''webcam-01'' 10) ''knife'' 100"
    by (simp add: cooldown_active_def last_alert_time_def init_service_def)
  show ?thesis
    using free
      success_iff_status_200 [OF free, of "Finite 0.8" "Status 200"]
      success_iff_status_200 [OF free, of "Finite 0.8" "Status 404"]
      success_iff_status_200 [OF free, of "Finite 0.8" Request_Exception]
    by simp
qed

text \<open>
  C10. The \<^verbatim>\<open>detection_count\<close> shown by \<^verbatim>\<open>/api/status\<close> counts delivered alerts. One
  call of \<^verbatim>\<open>send_alert\<close> adds one exactly when it returns \<^verbatim>\<open>True\<close>, which it does
  exactly when the cooldown is over and the backend answers 200; a suppressed attempt, a
  rejected one and a failed request add nothing. After any sequence of calls, starting
  from a fresh service, the count equals the number of calls that returned \<^verbatim>\<open>True\<close>.
\<close>

theorem detection_count_counts_sent_alerts:
  "detection_count (snd (snd (send_alert s dt c now reply)))
     = detection_count s + (if fst (send_alert s dt c now reply) then 1 else 0)
   \<and> fst (send_alert s dt c now reply)
       = (\<not> cooldown_active s dt now \<and> reply = Status 200)
   \<and> status_detection_count (status (snd (send_alerts s calls)))
       = detection_count s + int (count_list (map fst (fst (send_alerts s calls))) True)
   \<and> status_detection_count
       (status (snd (send_alerts (init_service conf_thr cam cooldown) calls)))
       = int (count_list
                (map fst (fst (send_alerts (init_service conf_thr cam cooldown) calls))) True)"
proof -
  have "detection_count (init_service conf_thr cam cooldown) = 0"
    by (simp add: init_service_def)
  then show ?thesis
    using send_alert_count[of s dt c now reply] send_alert_returns[of s dt c now reply]
      send_alerts_count[of s calls] send_alerts_count[of "init_service conf_thr cam cooldown" calls]
    by (simp add: status_def)
qed

section \<open>Rounding to \<^verbatim>\<open>float32\<close>\<close>

lemma binade_half_to_one:
  assumes "1 / 2 \<le> x" and "x < 1"
  shows "\<lfloor>log 2 \<bar>x\<bar>\<rfloor> = - 1"
proof -
  have pos: "0 < x" using assms by simp
  have "log 2 x < 0"
    using pos assms(2) by simp
  moreover have "- 1 \<le> log 2 x"
  proof -
    have "(2::real) powr (- 1) \<le> x"
      using assms(1) by (simp add: powr_minus)
    then show ?thesis
      using pos by (simp add: le_log_iff)
  qed
  ultimately have "\<lfloor>log 2 x\<rfloor> = - 1"
    by (simp add: floor_eq_iff)
  then show ?thesis using pos by simp
qed

lemma ulp_half_to_one: "(2::real) powr (of_int (max (- 1) (- 126)) - 23) = 1 / 16777216"
proof -
  have "of_int (max (- 1) (- 126)) - 23 = (- 24 :: real)"
    by simp
  moreover have "(2::real) powr (- 24) = 1 / 2 powr 24"
    by (rule powr_minus_divide)
  moreover have "(2::real) powr 24 = 2 ^ 24"
    using powr_realpow[of 2 24] by simp
  ultimately show ?thesis by simp
qed

lemma big: "(2::real) powr 128 = 2 ^ 128"
  using powr_realpow[of 2 128] by simp

lemma to_single_07: "to_single 0.7 = Finite (11744051 / 16777216)"
proof -
  have e: "\<lfloor>log 2 \<bar>0.7::real\<bar>\<rfloor> = - 1"
    by (rule binade_half_to_one) simp_all
  have r: "round_half_even (0.7 / (1 / 16777216)) = 11744051"
    by (simp add: round_half_even_def Let_def floor_eq_iff)
  show ?thesis
    unfolding to_single_def e Let_def ulp_half_to_one r big
    by simp
qed

lemma to_single_05: "to_single 0.5 = Finite 0.5"
proof -
  have e: "\<lfloor>log 2 \<bar>0.5::real\<bar>\<rfloor> = - 1"
    by (rule binade_half_to_one) simp_all
  have r: "round_half_even (0.5 / (1 / 16777216)) = 8388608"
    by (simp add: round_half_even_def Let_def floor_eq_iff)
  show ?thesis
    unfolding to_single_def e Let_def ulp_half_to_one r big
    by simp
qed


lemma to_single_thresholds:
  "to_single (7 / 10) = Finite (11744051 / 16777216)" "to_single (1 / 2) = Finite (1 / 2)"
  using to_single_07 to_single_05 by simp_all

section \<open>Properties of \<^verbatim>\<open>process_detections\<close>\<close>

lemma drawn_on_refl: "drawn_on ref store store"
proof -
  have "store = store(ref := (store ref)\<lparr>drawn := drawn (store ref) @ []\<rparr>)"
    by simp
  then show ?thesis unfolding drawn_on_def by blast
qed

lemma drawn_on_trans:
  assumes "drawn_on ref s1 s2" and "drawn_on ref s2 s3"
  shows "drawn_on ref s1 s3"
proof -
  obtain ops1 where a: "s2 = s1(ref := (s1 ref)\<lparr>drawn := drawn (s1 ref) @ ops1\<rparr>)"
    using assms(1) unfolding drawn_on_def by blast
  obtain ops2 where b: "s3 = s2(ref := (s2 ref)\<lparr>drawn := drawn (s2 ref) @ ops2\<rparr>)"
    using assms(2) unfolding drawn_on_def by blast
  have "s3 = s1(ref := (s1 ref)\<lparr>drawn := drawn (s1 ref) @ (ops1 @ ops2)\<rparr>)"
    unfolding b a by simp
  then show ?thesis unfolding drawn_on_def by blast
qed

lemma drawn_on_draw: "drawn_on ref store (store(ref := draw (store ref) op))"
proof -
  have "store(ref := draw (store ref) op)
          = store(ref := (store ref)\<lparr>drawn := drawn (store ref) @ [op]\<rparr>)"
    by (simp add: draw_def)
  then show ?thesis unfolding drawn_on_def by blast
qed

lemma cv2_calls_drawn_on: "drawn_on ref store (snd (cv2_calls rt ref ops store))"
proof (induction ops arbitrary: store)
  case Nil
  show ?case by (simp add: drawn_on_refl)
next
  case (Cons op ops)
  show ?case
  proof (cases "cv2_accepts rt op")
    case True
    let ?s1 = "store(ref := draw (store ref) op)"
    have first: "drawn_on ref store ?s1"
      by (rule drawn_on_draw)
    have rest: "drawn_on ref ?s1 (snd (cv2_calls rt ref ops ?s1))"
      by (rule Cons.IH)
    have "cv2_calls rt ref (op # ops) store = cv2_calls rt ref ops ?s1"
      using True by simp
    then show ?thesis
      using drawn_on_trans[OF first rest] by (simp only:)
  next
    case False
    then show ?thesis by (simp add: drawn_on_refl)
  qed
qed

lemma cv2_calls_error: "fst (cv2_calls rt ref ops store) = None \<or> fst (cv2_calls rt ref ops store) = Some Cv2_Error"
  by (induction ops arbitrary: store) auto

lemma cv2_calls_accepted:
  "fst (cv2_calls rt ref (op # ops) store) = None \<Longrightarrow>
   length (drawn (store ref)) < length (drawn (snd (cv2_calls rt ref (op # ops) store) ref))"
proof -
  assume ok: "fst (cv2_calls rt ref (op # ops) store) = None"
  then have acc: "cv2_accepts rt op"
    by (auto split: if_splits)
  let ?s1 = "store(ref := draw (store ref) op)"
  obtain more where "snd (cv2_calls rt ref ops ?s1) = ?s1(ref := (?s1 ref)\<lparr>drawn := drawn (?s1 ref) @ more\<rparr>)"
    using cv2_calls_drawn_on[of ref ?s1 rt ops] unfolding drawn_on_def by blast
  then show ?thesis
    using acc by (simp add: draw_def)
qed


lemma alert_branch_effects:
  assumes "alert_branch rt ref alerts_on env class_name conf st = (err, st')"
  shows "drawn_on ref (frames st) (frames st')
       \<and> detections st' = detections st
       \<and> (svc st', posted st') =
           (if alerts_on
            then (case send_alert (svc st) (if is_gun_type class_name then ''gun'' else ''knife'')
                         conf (fst env) (snd env) of
                    (ok, req, s') \<Rightarrow> (s', posted st @ opt_list req))
            else (svc st, posted st))"
proof -
  let ?wt = "if is_gun_type class_name then ''gun'' else ''knife''"
  obtain ok req s' where sa: "send_alert (svc st) ?wt conf (fst env) (snd env) = (ok, req, s')"
    by (metis prod_cases3)
  define st1 where "st1 = (if alerts_on then st\<lparr>svc := s', posted := posted st @ opt_list req\<rparr> else st)"
  define call where "call = Put_Text (Warning_Text ?wt conf)
                   (10, 60 + 20 * int (frame_detection_count st1)) 0.7
                   (if is_gun_type class_name then (0, 0, 255) else (0, 165, 255)) 2"
  have "alert_branch rt ref alerts_on env class_name conf st
          = (fst (cv2_calls rt ref [call] (frames st1)),
             st1\<lparr>frames := snd (cv2_calls rt ref [call] (frames st1))\<rparr>)"
    unfolding alert_branch_def Let_def st1_def call_def sa
    by (simp add: case_prod_beta)
  then have st': "st' = st1\<lparr>frames := snd (cv2_calls rt ref [call] (frames st1))\<rparr>"
    using assms by simp
  have same: "frames st1 = frames st" "detections st1 = detections st"
    "(svc st1, posted st1) = (if alerts_on then (s', posted st @ opt_list req) else (svc st, posted st))"
    by (simp_all add: st1_def)
  have "drawn_on ref (frames st1) (snd (cv2_calls rt ref [call] (frames st1)))"
    by (rule cv2_calls_drawn_on)
  then have d: "drawn_on ref (frames st) (frames st')"
    unfolding st' using same(1) by simp
  show ?thesis
    using d same sa unfolding st' by simp
qed

lemma annotate_detection_effects:
  assumes "annotate_detection rt ref alerts_on env class_name conf bbox st = (err, st')"
  shows "drawn_on ref (frames st) (frames st')
       \<and> (svc st', posted st') =
           (case int_box bbox of
              Inl e \<Rightarrow> (svc st, posted st)
            | Inr ibox \<Rightarrow>
                if alerts_on \<and> is_weapon class_name \<and> np_ge rt conf (alert_threshold (svc st))
                then (case send_alert (svc st)
                             (if is_gun_type class_name then ''gun'' else ''knife'')
                             conf (fst env) (snd env) of
                        (ok, req, s') \<Rightarrow> (s', posted st @ opt_list req))
                else (svc st, posted st))"
proof -
  define st1 where "st1 = st\<lparr>frame_detection_count := frame_detection_count st + 1,
                 detections := detections st @ [(class_name, conf, bbox)]\<rparr>"
  define gate where "gate = (is_weapon class_name \<and> np_ge rt conf (alert_threshold (svc st1)))"
  have st1: "frames st1 = frames st" "svc st1 = svc st" "posted st1 = posted st"
    by (simp_all add: st1_def)
  have unfolded: "annotate_detection rt ref alerts_on env class_name conf bbox st =
     (case int_box bbox of
           Inl e \<Rightarrow> (Some e, st1)
         | Inr ibox \<Rightarrow>
             (case (if gate then alert_branch rt ref alerts_on env class_name conf st1
                    else (None, st1)) of
                (Some e, st2) \<Rightarrow> (Some e, st2)
              | (None, st2) \<Rightarrow>
                  (case cv2_calls rt ref
                          (box_calls class_name conf ibox (box_style rt (svc st1) class_name conf))
                          (frames st2) of
                     (err, store') \<Rightarrow> (err, st2\<lparr>frames := store'\<rparr>))))"
    unfolding annotate_detection_def Let_def st1_def gate_def ..
  show ?thesis
  proof (cases "int_box bbox")
    case (Inl e)
    then have "st' = st1"
      using assms unfolded by simp
    then show ?thesis
      using Inl st1 by (simp add: drawn_on_refl)
  next
    case (Inr ibox)
    obtain err2 st2 where mid:
      "(if gate then alert_branch rt ref alerts_on env class_name conf st1 else (None, st1))
         = (err2, st2)"
      by (metis surj_pair)
    have mid_eff: "drawn_on ref (frames st) (frames st2)
       \<and> (svc st2, posted st2) =
           (if alerts_on \<and> gate
            then (case send_alert (svc st)
                         (if is_gun_type class_name then ''gun'' else ''knife'')
                         conf (fst env) (snd env) of
                    (ok, req, s') \<Rightarrow> (s', posted st @ opt_list req))
            else (svc st, posted st))"
    proof (cases gate)
      case True
      then have "alert_branch rt ref alerts_on env class_name conf st1 = (err2, st2)"
        using mid by simp
      then show ?thesis
        using alert_branch_effects[of rt ref alerts_on env class_name conf st1 err2 st2] True st1
        by simp
    next
      case False
      then have "st2 = st1" using mid by simp
      then show ?thesis using False st1 by (simp add: drawn_on_refl)
    qed
    have gate: "gate = (is_weapon class_name \<and> np_ge rt conf (alert_threshold (svc st)))"
      by (simp add: gate_def st1)
    show ?thesis
    proof (cases err2)
      case (Some e)
      then have "st' = st2"
        using assms unfolded Inr mid by simp
      then show ?thesis
        using mid_eff Inr gate by auto
    next
      case None
      define calls where "calls = box_calls class_name conf ibox (box_style rt (svc st1) class_name conf)"
      have "annotate_detection rt ref alerts_on env class_name conf bbox st
              = (fst (cv2_calls rt ref calls (frames st2)),
                 st2\<lparr>frames := snd (cv2_calls rt ref calls (frames st2))\<rparr>)"
        using unfolded Inr mid None by (simp add: calls_def case_prod_beta)
      then have st': "st' = st2\<lparr>frames := snd (cv2_calls rt ref calls (frames st2))\<rparr>"
        using assms by simp
      have more: "drawn_on ref (frames st2) (snd (cv2_calls rt ref calls (frames st2)))"
        by (rule cv2_calls_drawn_on)
      have sofar: "drawn_on ref (frames st) (frames st2)"
        using mid_eff by blast
      have "drawn_on ref (frames st) (frames st')"
        unfolding st' using drawn_on_trans[OF sofar more] by simp
      then show ?thesis
        unfolding st' using mid_eff Inr gate by auto
    qed
  qed
qed

lemma process_row_effects:
  assumes "process_row rt ref alerts_on names env row st = (err, st')"
  shows "drawn_on ref (frames st) (frames st')
       \<and> (svc st', posted st') =
           (if alerts_on then row_alert rt names env row (svc st, posted st)
            else (svc st, posted st))"
proof (cases "length row = 6")
  case False
  then have "st' = st"
    using assms by (auto simp add: process_row_def split: if_splits)
  then show ?thesis
    using False by (simp add: drawn_on_refl row_alert_def alert_of_row_def)
next
  case six: True
  show ?thesis
  proof (cases "py_int (row ! 5)")
    case (Inl e)
    then have "st' = st"
      using assms six by (simp add: process_row_def)
    then show ?thesis
      using six Inl by (simp add: drawn_on_refl row_alert_def alert_of_row_def)
  next
    case (Inr class_id)
    show ?thesis
    proof (cases "names class_id")
      case None
      then have "st' = st"
        using assms six Inr by (simp add: process_row_def)
      then show ?thesis
        using six Inr None by (simp add: drawn_on_refl row_alert_def alert_of_row_def)
    next
      case (Some class_name)
      show ?thesis
      proof (cases "np_ge rt (row ! 4) (confidence_threshold (svc st))")
        case False
        then have "st' = st"
          using assms six Inr Some by (simp add: process_row_def)
        then show ?thesis
          using six Inr Some False
          by (simp add: drawn_on_refl row_alert_def alert_of_row_def split: sum.splits)
      next
        case True
        then have "annotate_detection rt ref alerts_on env class_name (row ! 4)
                     (row ! 0, row ! 1, row ! 2, row ! 3) st = (err, st')"
          using assms six Inr Some by (simp add: process_row_def)
        note eff = annotate_detection_effects[OF this]
        show ?thesis
          using eff six Inr Some True
          by (auto simp add: row_alert_def alert_of_row_def split: sum.splits prod.splits)
      qed
    qed
  qed
qed


lemma row_alert_effects:
  "same_config (fst acc) (fst (row_alert rt names env row acc))
   \<and> (\<exists>new. snd (row_alert rt names env row acc) = snd acc @ new
        \<and> (\<forall>a \<in> set new.
              pf_le (promote rt (alert_threshold (fst acc))) (confidence_of a)
              \<and> pf_le (promote rt (confidence_threshold (fst acc))) (confidence_of a)))"
proof (cases "alert_of_row rt (fst acc) names row")
  case None
  then show ?thesis
    by (simp add: row_alert_def same_config_def)
next
  case (Some call)
  obtain wt conf where call: "call = (wt, conf)"
    by (cases call) auto
  have gates: "np_ge rt conf (confidence_threshold (fst acc))"
    "np_ge rt conf (alert_threshold (fst acc))"
    using Some call
    by (auto simp add: alert_of_row_def split: if_splits sum.splits option.splits)
  obtain ok req s' where sa: "send_alert (fst acc) wt conf (fst env) (snd env) = (ok, req, s')"
    by (metis prod_cases3)
  have cfg: "same_config (fst acc) s'"
    using send_alert_config[of "fst acc" wt conf "fst env" "snd env"] sa
    by (simp add: same_config_def)
  have req: "\<forall>a \<in> set (opt_list req). confidence_of a = conf"
    using send_alert_request[of "fst acc" wt conf "fst env" "snd env"] sa
    by (auto simp add: opt_list_def split: option.splits if_splits)
  have res: "row_alert rt names env row acc = (s', snd acc @ opt_list req)"
    using Some call sa by (simp add: row_alert_def)
  show ?thesis
    unfolding res using cfg req gates by (auto simp add: np_ge_def)
qed

lemma row_alerts_effects:
  "same_config (fst acc) (fst (row_alerts rt names env i rows acc))
   \<and> (\<exists>new. snd (row_alerts rt names env i rows acc) = snd acc @ new
        \<and> (\<forall>a \<in> set new.
              pf_le (promote rt (alert_threshold (fst acc))) (confidence_of a)
              \<and> pf_le (promote rt (confidence_threshold (fst acc))) (confidence_of a)))"
proof (induction rows arbitrary: acc i)
  case Nil
  show ?case by (simp add: same_config_def)
next
  case (Cons row rows)
  define acc1 where "acc1 = row_alert rt names (env i) row acc"
  note step = row_alert_effects[of acc rt names "env i" row, folded acc1_def]
  note ih = Cons.IH[of acc1 "Suc i"]
  have thr: "alert_threshold (fst acc1) = alert_threshold (fst acc)"
    "confidence_threshold (fst acc1) = confidence_threshold (fst acc)"
    using step by (simp_all add: same_config_def)
  obtain new1 where new1: "snd acc1 = snd acc @ new1"
    "\<forall>a \<in> set new1. pf_le (promote rt (alert_threshold (fst acc))) (confidence_of a)
              \<and> pf_le (promote rt (confidence_threshold (fst acc))) (confidence_of a)"
    using step by blast
  obtain new2 where new2: "snd (row_alerts rt names env (Suc i) rows acc1) = snd acc1 @ new2"
    "\<forall>a \<in> set new2. pf_le (promote rt (alert_threshold (fst acc1))) (confidence_of a)
              \<and> pf_le (promote rt (confidence_threshold (fst acc1))) (confidence_of a)"
    using ih by blast
  have cfg: "same_config (fst acc) (fst (row_alerts rt names env (Suc i) rows acc1))"
    using step ih by (simp add: same_config_def)
  have "snd (row_alerts rt names env (Suc i) rows acc1) = snd acc @ (new1 @ new2)"
    using new1(1) new2(1) by simp
  moreover have "\<forall>a \<in> set (new1 @ new2).
              pf_le (promote rt (alert_threshold (fst acc))) (confidence_of a)
              \<and> pf_le (promote rt (confidence_threshold (fst acc))) (confidence_of a)"
    using new1(2) new2(2) thr by auto
  ultimately show ?case
    using cfg unfolding row_alerts.simps acc1_def[symmetric] by blast
qed

lemma process_rows_effects:
  assumes "process_rows rt ref alerts_on names env i rows st = (err, st')"
  shows "drawn_on ref (frames st) (frames st')
       \<and> (\<exists>k \<le> length rows.
             (svc st', posted st') =
               (if alerts_on then row_alerts rt names env i (take k rows) (svc st, posted st)
                else (svc st, posted st))
             \<and> (err = None \<longrightarrow> k = length rows))"
  using assms
proof (induction rows arbitrary: st i)
  case Nil
  then show ?case by (simp add: drawn_on_refl)
next
  case (Cons row rows)
  obtain err1 st1 where row: "process_row rt ref alerts_on names (env i) row st = (err1, st1)"
    by (metis surj_pair)
  note step = process_row_effects[OF row]
  show ?case
  proof (cases err1)
    case (Some e)
    then have res: "err = Some e" "st' = st1"
      using Cons.prems row by simp_all
    have "(svc st', posted st') =
               (if alerts_on then row_alerts rt names env i (take 1 (row # rows)) (svc st, posted st)
                else (svc st, posted st))"
      using step res by simp
    moreover have "(1::nat) \<le> length (row # rows)" by simp
    moreover have "err = None \<longrightarrow> 1 = length (row # rows)"
      using res by simp
    ultimately have "\<exists>k \<le> length (row # rows).
             (svc st', posted st') =
               (if alerts_on then row_alerts rt names env i (take k (row # rows)) (svc st, posted st)
                else (svc st, posted st))
             \<and> (err = None \<longrightarrow> k = length (row # rows))"
      by blast
    then show ?thesis
      using step res by simp
  next
    case None
    then have rest: "process_rows rt ref alerts_on names env (Suc i) rows st1 = (err, st')"
      using Cons.prems row by simp
    note ih = Cons.IH[OF rest]
    obtain k where k: "k \<le> length rows"
      "(svc st', posted st') =
               (if alerts_on then row_alerts rt names env (Suc i) (take k rows) (svc st1, posted st1)
                else (svc st1, posted st1))"
      "err = None \<longrightarrow> k = length rows"
      using ih by blast
    have "(svc st', posted st') =
               (if alerts_on then row_alerts rt names env i (take (Suc k) (row # rows)) (svc st, posted st)
                else (svc st, posted st))"
      using k(2) step by (cases alerts_on) simp_all
    moreover have "Suc k \<le> length (row # rows)"
      using k(1) by simp
    moreover have "err = None \<longrightarrow> Suc k = length (row # rows)"
      using k(3) by simp
    ultimately have "\<exists>k \<le> length (row # rows).
             (svc st', posted st') =
               (if alerts_on then row_alerts rt names env i (take k (row # rows)) (svc st, posted st)
                else (svc st, posted st))
             \<and> (err = None \<longrightarrow> k = length (row # rows))"
      by blast
    moreover have "drawn_on ref (frames st) (frames st')"
      using step ih drawn_on_trans by blast
    ultimately show ?thesis by blast
  qed
qed


lemma drawn_on_length:
  "drawn_on ref store store' \<Longrightarrow> length (drawn (store ref)) \<le> length (drawn (store' ref))"
  unfolding drawn_on_def by auto

lemma process_detections_effects:
  "drawn_on ref store (store_after (process_detections rt s results store ref names alerts_on env))
   \<and> ((\<exists>dets. returned (process_detections rt s results store ref names alerts_on env) = Inr dets)
        \<longrightarrow> length (drawn (store ref))
              < length (drawn (store_after
                  (process_detections rt s results store ref names alerts_on env) ref)))
   \<and> (\<exists>k \<le> length (validate_pred (extract_pred results)).
         (service_after (process_detections rt s results store ref names alerts_on env),
          requests (process_detections rt s results store ref names alerts_on env))
           = (if alerts_on
              then row_alerts rt names env 0 (take k (validate_pred (extract_pred results))) (s, [])
              else (s, []))
         \<and> ((\<exists>dets. returned (process_detections rt s results store ref names alerts_on env)
                      = Inr dets)
              \<longrightarrow> k = length (validate_pred (extract_pred results))))"
proof -
  define st0 where "st0 = \<lparr>detections = [], frame_detection_count = 0, frames = store, svc = s,
              posted = []\<rparr>"
  define pred where "pred = validate_pred (extract_pred results)"
  obtain err st where run: "process_rows rt ref alerts_on names env 0 pred st0 = (err, st)"
    by (metis surj_pair)
  note eff = process_rows_effects[OF run]
  have st0: "frames st0 = store" "svc st0 = s" "posted st0 = []"
    by (simp_all add: st0_def)
  obtain k where k0: "k \<le> length pred"
    "(svc st, posted st) =
       (if alerts_on then row_alerts rt names env 0 (take k pred) (svc st0, posted st0)
        else (svc st0, posted st0))"
    "err = None \<longrightarrow> k = length pred"
    using eff by blast
  have k: "k \<le> length pred"
    "(svc st, posted st) =
       (if alerts_on then row_alerts rt names env 0 (take k pred) (s, []) else (s, []))"
    "err = None \<longrightarrow> k = length pred"
    using k0 unfolding st0 by blast+
  have loop: "drawn_on ref store (frames st)"
    using eff st0 by simp
  define r where "r = process_detections rt s results store ref names alerts_on env"
  show ?thesis
  proof (cases err)
    case (Some e)
    have res: "r = \<lparr>returned = Inl e, store_after = frames st, service_after = svc st,
           requests = posted st\<rparr>"
      using run Some by (simp add: r_def process_detections_def st0_def pred_def)
    have "\<exists>k \<le> length pred.
         (service_after r, requests r)
           = (if alerts_on then row_alerts rt names env 0 (take k pred) (s, []) else (s, []))
         \<and> ((\<exists>dets. returned r = Inr dets) \<longrightarrow> k = length pred)"
      using k unfolding res by auto
    then show ?thesis
      using loop unfolding r_def[symmetric] pred_def[symmetric] res by simp
  next
    case None
    define out where "out = cv2_calls rt ref [summary_call ref st] (frames st)"
    have final: "drawn_on ref (frames st) (snd out)"
      unfolding out_def by (rule cv2_calls_drawn_on)
    have all: "drawn_on ref store (snd out)"
      using drawn_on_trans[OF loop final] .
    have res: "r = \<lparr>returned = (case fst out of Some e \<Rightarrow> Inl e | None \<Rightarrow> Inr (detections st)),
           store_after = snd out, service_after = svc st, requests = posted st\<rparr>"
      using run None
      by (cases out; cases "fst out")
         (simp_all add: r_def process_detections_def st0_def pred_def out_def)
    have grows: "(\<exists>dets. returned r = Inr dets)
        \<longrightarrow> length (drawn (store ref)) < length (drawn (store_after r ref))"
    proof
      assume "\<exists>dets. returned r = Inr dets"
      then have "fst out = None"
        unfolding res by (cases "fst out") simp_all
      then have "length (drawn (frames st ref)) < length (drawn (snd out ref))"
        unfolding out_def by (rule cv2_calls_accepted)
      moreover have "length (drawn (store ref)) \<le> length (drawn (frames st ref))"
        using loop by (rule drawn_on_length)
      ultimately show "length (drawn (store ref)) < length (drawn (store_after r ref))"
        unfolding res by simp
    qed
    have "\<exists>k \<le> length pred.
         (service_after r, requests r)
           = (if alerts_on then row_alerts rt names env 0 (take k pred) (s, []) else (s, []))
         \<and> ((\<exists>dets. returned r = Inr dets) \<longrightarrow> k = length pred)"
      using k None unfolding res by auto
    moreover have "drawn_on ref store (store_after r)"
      using all unfolding res by simp
    ultimately show ?thesis
      using grows unfolding r_def[symmetric] pred_def[symmetric] by blast
  qed
qed

lemma process_detections_requests:
  "same_config s (service_after (process_detections rt s results store ref names alerts_on env))
   \<and> (\<forall>a \<in> set (requests (process_detections rt s results store ref names alerts_on env)).
         pf_le (promote rt (alert_threshold s)) (confidence_of a)
         \<and> pf_le (promote rt (confidence_threshold s)) (confidence_of a))"
proof -
  define r where "r = process_detections rt s results store ref names alerts_on env"
  obtain k where k: "(service_after r, requests r)
           = (if alerts_on
              then row_alerts rt names env 0 (take k (validate_pred (extract_pred results))) (s, [])
              else (s, []))"
    using process_detections_effects[of ref store rt s results names alerts_on env]
    unfolding r_def by blast
  show ?thesis
  proof (cases alerts_on)
    case False
    then show ?thesis
      using k unfolding r_def[symmetric] by (simp add: same_config_def)
  next
    case True
    then have "service_after r = fst (row_alerts rt names env 0 (take k (validate_pred (extract_pred results))) (s, []))"
      "requests r = snd (row_alerts rt names env 0 (take k (validate_pred (extract_pred results))) (s, []))"
      using k by (metis fst_conv, metis snd_conv)
    then show ?thesis
      using row_alerts_effects[of "(s, [])" rt names env 0 "take k (validate_pred (extract_pred results))"]
      unfolding r_def[symmetric] by auto
  qed
qed

lemma detect_frames_requests:
  "\<forall>r \<in> set (fst (detect_frames rt s names store frs)). \<forall>a \<in> set (requests r).
      pf_le (promote rt (alert_threshold s)) (confidence_of a)
      \<and> pf_le (promote rt (confidence_threshold s)) (confidence_of a)"
proof (induction frs arbitrary: s store)
  case Nil
  show ?case by simp
next
  case (Cons f frs)
  obtain results ref env where f: "f = (results, ref, env)"
    by (cases f) auto
  define r where "r = process_detections rt s results store ref names True env"
  note here = process_detections_requests[of s rt results store ref names True env, folded r_def]
  have cfg: "alert_threshold (service_after r) = alert_threshold s"
    "confidence_threshold (service_after r) = confidence_threshold s"
    using here by (simp_all add: same_config_def)
  have rest: "\<forall>r' \<in> set (fst (detect_frames rt (service_after r) names (store_after r) frs)).
      \<forall>a \<in> set (requests r').
      pf_le (promote rt (alert_threshold s)) (confidence_of a)
      \<and> pf_le (promote rt (confidence_threshold s)) (confidence_of a)"
    using Cons.IH[of "service_after r" "store_after r"] cfg by simp
  show ?case
    using f here rest unfolding r_def by (auto simp add: Let_def split: prod.splits)
qed


lemma weapon_names:
  "is_weapon ''gun''" "is_gun_type ''gun''" "is_weapon ''knife''" "\<not> is_gun_type ''knife''"
  by (simp_all add: is_weapon_def is_gun_type_def weapon_classes_def lower_def lower_char_def)

lemma default_gates:
  assumes "promote rt = to_double \<or> promote rt = to_single" and "7 / 10 \<le> v"
  shows "np_ge rt (Finite v) (7 / 10) \<and> np_ge rt (Finite v) (1 / 2)"
proof -
  have "(11744051 / 16777216 :: real) \<le> 7 / 10"
    by simp
  then show ?thesis
    using assms by (auto simp add: np_ge_def to_double_def to_single_thresholds)
qed

lemma single_row:
  assumes "validate_pred (extract_pred results) = [row]"
  shows "(service_after (process_detections rt s results store ref names alerts_on env),
          requests (process_detections rt s results store ref names alerts_on env))
           = (if alerts_on then row_alert rt names (env 0) row (s, []) else (s, []))"
proof -
  define st0 where "st0 = \<lparr>detections = [], frame_detection_count = 0, frames = store, svc = s,
              posted = []\<rparr>"
  obtain err st where row: "process_row rt ref alerts_on names (env 0) row st0 = (err, st)"
    by (metis surj_pair)
  have eff: "(svc st, posted st) = (if alerts_on then row_alert rt names (env 0) row (s, []) else (s, []))"
    using process_row_effects[OF row] by (simp add: st0_def)
  have "service_after (process_detections rt s results store ref names alerts_on env) = svc st
      \<and> requests (process_detections rt s results store ref names alerts_on env) = posted st"
    using row assms
    by (cases err)
       (simp_all add: process_detections_def st0_def[symmetric] split: prod.splits option.splits)
  then show ?thesis
    using eff by simp
qed

lemma one_box_alert:
  assumes "np_ge rt conf (confidence_threshold s)" and "np_ge rt conf (alert_threshold s)"
  shows "service_after (process_detections rt s (one_box conf) store ref gun_knife_names True env)
           = snd (snd (send_alert s ''gun'' conf (fst (env 0)) (snd (env 0))))
       \<and> requests (process_detections rt s (one_box conf) store ref gun_knife_names True env)
           = opt_list (fst (snd (send_alert s ''gun'' conf (fst (env 0)) (snd (env 0)))))"
proof -
  let ?row = "[Finite 100, Finite 120, Finite 220, Finite 360, conf, Finite 0]"
  have pred: "validate_pred (extract_pred (one_box conf)) = [?row]"
    by (simp add: one_box_def validate_pred_def)
  have "alert_of_row rt s gun_knife_names ?row = Some (''gun'', conf)"
    using assms
    by (simp add: alert_of_row_def gun_knife_names_def int_box_def weapon_names)
  then have "row_alert rt gun_knife_names (env 0) ?row (s, [])
     = (snd (snd (send_alert s ''gun'' conf (fst (env 0)) (snd (env 0)))),
        opt_list (fst (snd (send_alert s ''gun'' conf (fst (env 0)) (snd (env 0))))))"
    by (simp add: row_alert_def split: prod.splits)
  then show ?thesis
    using single_row[OF pred, of rt s store ref gun_knife_names True env] by simp
qed

text \<open>
  Two runs that end in an exception: a NaN in the class field raises at \<^verbatim>\<open>int(cls)\<close>
  before anything is done, and a box whose corner lies outside the range of a C
  \<^verbatim>\<open>int\<close> makes the drawing raise after the alert of the detection has gone out.
\<close>

lemma nan_class_raises:
  "returned (process_detections rt s
      (Result_Object None
         (Some [[Finite 100, Finite 120, Finite 220, Finite 360, Finite 0.9, NaN]]))
      store ref names alerts_on env) = Inl ValueError"
  by (simp add: process_detections_def validate_pred_def process_row_def)

lemma alert_posted_before_cv2_raises:
  "returned (process_detections numpy2 (init_service 0.5 ''webcam-01'' 10)
      (Result_Object None
         (Some [[Finite 0, Finite 0, Finite 2147483648, Finite 10, Finite 0.9, Finite 0]]))
      camera_frames 0 gun_knife_names True (steady_env 100 (Status 200))) = Inl Cv2_Error
   \<and> requests (process_detections numpy2 (init_service 0.5 ''webcam-01'' 10)
      (Result_Object None
         (Some [[Finite 0, Finite 0, Finite 2147483648, Finite 10, Finite 0.9, Finite 0]]))
      camera_frames 0 gun_knife_names True (steady_env 100 (Status 200)))
     = [\<lparr>camera_id_of = ''webcam-01'', confidence_of = Finite 0.9, detection_type_of = ''gun''\<rparr>]"
  by (simp add: process_detections_def validate_pred_def process_row_def
        gun_knife_names_def annotate_detection_def alert_branch_def weapon_names int_box_def
        np_ge_def numpy2_def to_single_thresholds init_service_def steady_env_def
        send_alert_def cooldown_active_def last_alert_time_def mark_sent_def opt_list_def
        box_calls_def box_style_def summary_call_def draw_def fits_c_int_def
        camera_frames_def camera_frame_def Let_def)

section \<open>The cooldown window\<close>

lemma cooldown_scenario_frames:
  assumes "promote rt = to_double \<or> promote rt = to_single" and "10 \<le> t0"
  shows "map requests (fst (detect_frames rt (init_service 0.5 ''webcam-01'' 10) gun_knife_names
            store
            [(one_box (Finite 0.9), ref1, steady_env t0 (Status 200)),
             (one_box (Finite 0.95), ref2, steady_env (t0 + 5) (Status 200)),
             (one_box (Finite 0.8), ref3, steady_env (t0 + 11) (Status 200))]))
     = [[\<lparr>camera_id_of = ''webcam-01'', confidence_of = Finite 0.9,
           detection_type_of = ''gun''\<rparr>],
        [],
        [\<lparr>camera_id_of = ''webcam-01'', confidence_of = Finite 0.8,
           detection_type_of = ''gun''\<rparr>]]
   \<and> map (last_gun_alert \<circ> service_after)
       (fst (detect_frames rt (init_service 0.5 ''webcam-01'' 10) gun_knife_names store
            [(one_box (Finite 0.9), ref1, steady_env t0 (Status 200)),
             (one_box (Finite 0.95), ref2, steady_env (t0 + 5) (Status 200)),
             (one_box (Finite 0.8), ref3, steady_env (t0 + 11) (Status 200))]))
     = [t0, t0, t0 + 11]"
proof -
  define s0 where "s0 = init_service 0.5 ''webcam-01'' 10"
  define s1 where "s1 = s0\<lparr>last_gun_alert := t0, detection_count := 1\<rparr>"
  define s3 where "s3 = s0\<lparr>last_gun_alert := t0 + 11, detection_count := 2\<rparr>"
  have thr: "confidence_threshold s0 = 1 / 2" "alert_threshold s0 = 7 / 10"
    "confidence_threshold s1 = 1 / 2" "alert_threshold s1 = 7 / 10"
    by (simp_all add: s0_def s1_def init_service_def)
  have gates: "np_ge rt (Finite 0.9) (7 / 10) \<and> np_ge rt (Finite 0.9) (1 / 2)"
    "np_ge rt (Finite 0.95) (7 / 10) \<and> np_ge rt (Finite 0.95) (1 / 2)"
    "np_ge rt (Finite 0.8) (7 / 10) \<and> np_ge rt (Finite 0.8) (1 / 2)"
    using default_gates[OF assms(1)] by simp_all
  have f1: "service_after (process_detections rt s0 (one_box (Finite 0.9)) store ref1
                gun_knife_names True (steady_env t0 (Status 200))) = s1
     \<and> requests (process_detections rt s0 (one_box (Finite 0.9)) store ref1
                gun_knife_names True (steady_env t0 (Status 200)))
        = [\<lparr>camera_id_of = ''webcam-01'', confidence_of = Finite 0.9,
             detection_type_of = ''gun''\<rparr>]"
    using assms(2) gates thr
      one_box_alert[of rt "Finite 0.9" s0 store ref1 "steady_env t0 (Status 200)"]
    by (simp add: steady_env_def send_alert_def cooldown_active_def last_alert_time_def
          mark_sent_def opt_list_def s0_def s1_def init_service_def)
  have f2: "service_after (process_detections rt s1 (one_box (Finite 0.95)) store' ref2
                gun_knife_names True (steady_env (t0 + 5) (Status 200))) = s1
     \<and> requests (process_detections rt s1 (one_box (Finite 0.95)) store' ref2
                gun_knife_names True (steady_env (t0 + 5) (Status 200))) = []" for store'
    using gates thr
      one_box_alert[of rt "Finite 0.95" s1 store' ref2 "steady_env (t0 + 5) (Status 200)"]
    by (simp add: steady_env_def send_alert_def cooldown_active_def last_alert_time_def
          mark_sent_def opt_list_def s0_def s1_def init_service_def)
  have f3: "service_after (process_detections rt s1 (one_box (Finite 0.8)) store' ref3
                gun_knife_names True (steady_env (t0 + 11) (Status 200))) = s3
     \<and> requests (process_detections rt s1 (one_box (Finite 0.8)) store' ref3
                gun_knife_names True (steady_env (t0 + 11) (Status 200)))
        = [\<lparr>camera_id_of = ''webcam-01'', confidence_of = Finite 0.8,
             detection_type_of = ''gun''\<rparr>]" for store'
    using gates thr
      one_box_alert[of rt "Finite 0.8" s1 store' ref3 "steady_env (t0 + 11) (Status 200)"]
    by (simp add: steady_env_def send_alert_def cooldown_active_def last_alert_time_def
          mark_sent_def opt_list_def s0_def s1_def s3_def init_service_def)
  show ?thesis
    unfolding s0_def[symmetric]
    using f1 f2 f3 by (simp add: Let_def s1_def s3_def)
qed

lemma cooldown_scenario_at_zero:
  assumes "promote rt = to_double \<or> promote rt = to_single"
  shows "map requests (fst (detect_frames rt (init_service 0.5 ''webcam-01'' 10) gun_knife_names
            store
            [(one_box (Finite 0.9), ref1, steady_env 0 (Status 200)),
             (one_box (Finite 0.95), ref2, steady_env 5 (Status 200)),
             (one_box (Finite 0.8), ref3, steady_env 11 (Status 200))]))
     = [[], [],
        [\<lparr>camera_id_of = ''webcam-01'', confidence_of = Finite 0.8,
           detection_type_of = ''gun''\<rparr>]]"
proof -
  define s0 where "s0 = init_service 0.5 ''webcam-01'' 10"
  have thr: "confidence_threshold s0 = 1 / 2" "alert_threshold s0 = 7 / 10"
    by (simp_all add: s0_def init_service_def)
  have gates: "np_ge rt (Finite 0.9) (7 / 10) \<and> np_ge rt (Finite 0.9) (1 / 2)"
    "np_ge rt (Finite 0.95) (7 / 10) \<and> np_ge rt (Finite 0.95) (1 / 2)"
    "np_ge rt (Finite 0.8) (7 / 10) \<and> np_ge rt (Finite 0.8) (1 / 2)"
    using default_gates[OF assms(1)] by simp_all
  have f1: "service_after (process_detections rt s0 (one_box (Finite 0.9)) store ref1
                gun_knife_names True (steady_env 0 (Status 200))) = s0
     \<and> requests (process_detections rt s0 (one_box (Finite 0.9)) store ref1
                gun_knife_names True (steady_env 0 (Status 200))) = []"
    using gates thr
      one_box_alert[of rt "Finite 0.9" s0 store ref1 "steady_env 0 (Status 200)"]
    by (simp add: steady_env_def send_alert_def cooldown_active_def last_alert_time_def
          mark_sent_def opt_list_def s0_def init_service_def)
  have f2: "service_after (process_detections rt s0 (one_box (Finite 0.95)) store' ref2
                gun_knife_names True (steady_env 5 (Status 200))) = s0
     \<and> requests (process_detections rt s0 (one_box (Finite 0.95)) store' ref2
                gun_knife_names True (steady_env 5 (Status 200))) = []" for store'
    using gates thr
      one_box_alert[of rt "Finite 0.95" s0 store' ref2 "steady_env 5 (Status 200)"]
    by (simp add: steady_env_def send_alert_def cooldown_active_def last_alert_time_def
          mark_sent_def opt_list_def s0_def init_service_def)
  have f3: "requests (process_detections rt s0 (one_box (Finite 0.8)) store' ref3
                gun_knife_names True (steady_env 11 (Status 200)))
        = [\<lparr>camera_id_of = ''webcam-01'', confidence_of = Finite 0.8,
             detection_type_of = ''gun''\<rparr>]" for store'
    using gates thr
      one_box_alert[of rt "Finite 0.8" s0 store' ref3 "steady_env 11 (Status 200)"]
    by (simp add: steady_env_def send_alert_def cooldown_active_def last_alert_time_def
          mark_sent_def opt_list_def s0_def init_service_def)
  show ?thesis
    unfolding s0_def[symmetric]
    using f1 f2 f3 by (simp add: Let_def)
qed

text \<open>
  C1, as the claim states it, fails on its own scenario: the clocks of a fresh service read
  0, so with a cooldown of 10 the gun detection at time 0 is suppressed (\<open>0 - 0 < 10\<close>),
  the one at time 5 as well, and the first alert that is sent is the one at time 11. This
  is so whether the confidences are compared in double precision or in \<^verbatim>\<open>float32\<close>.
\<close>

theorem cooldown_scenario_counterexample:
  "map requests (fst (detect_frames numpy1 (init_service 0.5 ''webcam-01'' 10) gun_knife_names
            camera_frames
            [(one_box (Finite 0.9), 0, steady_env 0 (Status 200)),
             (one_box (Finite 0.95), 1, steady_env 5 (Status 200)),
             (one_box (Finite 0.8), 2, steady_env 11 (Status 200))]))
     = [[], [],
        [\<lparr>camera_id_of = ''webcam-01'', confidence_of = Finite 0.8,
           detection_type_of = ''gun''\<rparr>]]
   \<and> map requests (fst (detect_frames numpy2 (init_service 0.5 ''webcam-01'' 10) gun_knife_names
            camera_frames
            [(one_box (Finite 0.9), 0, steady_env 0 (Status 200)),
             (one_box (Finite 0.95), 1, steady_env 5 (Status 200)),
             (one_box (Finite 0.8), 2, steady_env 11 (Status 200))]))
     = [[], [],
        [\<lparr>camera_id_of = ''webcam-01'', confidence_of = Finite 0.8,
           detection_type_of = ''gun''\<rparr>]]"
proof -
  have "promote numpy1 = to_double \<or> promote numpy1 = to_single"
    "promote numpy2 = to_double \<or> promote numpy2 = to_single"
    by (simp_all add: numpy1_def numpy2_def)
  then show ?thesis
    using cooldown_scenario_at_zero[of numpy1 camera_frames 0 1 2]
      cooldown_scenario_at_zero[of numpy2 camera_frames 0 1 2]
    by blast
qed

text \<open>
  C1, amended. With a non-negative cooldown, after a dispatch for a detection type that
  succeeded at time \<open>t\<close> the clock of the type reads \<open>t\<close>; in any sequence of later
  \<^verbatim>\<open>send_alert\<close> calls, every call for that type at a time \<open>t'\<close> with
  \<open>t' - t < cooldown_seconds\<close> returns \<^verbatim>\<open>False\<close> and posts nothing; and a next
  attempt at \<open>t''\<close> with \<open>t'' - t \<ge> cooldown_seconds\<close> that the backend accepts is sent
  and sets the clock to \<open>t''\<close>. The scenario holds on the service's own clock, whose
  readings are at least \<open>cooldown_seconds\<close> above the initial clock value 0: with cooldown
  10 and alert threshold 0.7, gun detections at \<open>t0\<close> (0.9), \<open>t0 + 5\<close> (0.95) and
  \<open>t0 + 11\<close> (0.8), for any \<open>t0 \<ge> 10\<close>, give: sent with clock \<open>t0\<close>, suppressed, sent
  with clock \<open>t0 + 11\<close>, in whichever frames of the store the detections are drawn,
  whatever OpenCV does with the drawing calls, and whether the confidences are compared in
  double precision or in \<^verbatim>\<open>float32\<close>.
\<close>

theorem one_alert_per_cooldown_window:
  assumes "0 \<le> cooldown_seconds s"
    and "fst (send_alert s dt c t reply)"
  shows "last_alert_time (snd (snd (send_alert s dt c t reply))) dt = t
       \<and> (\<forall>i < length calls. \<forall>c' t' reply'.
            calls ! i = (dt, c', t', reply') \<and> t' - t < real_of_int (cooldown_seconds s)
            \<longrightarrow> fst (send_alerts (snd (snd (send_alert s dt c t reply))) calls) ! i
                  = (False, None))
       \<and> (real_of_int (cooldown_seconds s) \<le> t'' - t \<longrightarrow>
            fst (send_alert (snd (snd (send_alert s dt c t reply))) dt c'' t'' (Status 200))
            \<and> last_alert_time
                (snd (snd (send_alert (snd (snd (send_alert s dt c t reply))) dt c'' t''
                             (Status 200)))) dt = t'')
       \<and> ((promote rt = to_double \<or> promote rt = to_single) \<and> 10 \<le> t0 \<longrightarrow>
            map requests
              (fst (detect_frames rt (init_service 0.5 ''webcam-01'' 10) gun_knife_names store
                 [(one_box (Finite 0.9), ref1, steady_env t0 (Status 200)),
                  (one_box (Finite 0.95), ref2, steady_env (t0 + 5) (Status 200)),
                  (one_box (Finite 0.8), ref3, steady_env (t0 + 11) (Status 200))]))
              = [[\<lparr>camera_id_of = ''webcam-01'', confidence_of = Finite 0.9,
                    detection_type_of = ''gun''\<rparr>],
                 [],
                 [\<lparr>camera_id_of = ''webcam-01'', confidence_of = Finite 0.8,
                    detection_type_of = ''gun''\<rparr>]]
            \<and> map (last_gun_alert \<circ> service_after)
                (fst (detect_frames rt (init_service 0.5 ''webcam-01'' 10) gun_knife_names store
                   [(one_box (Finite 0.9), ref1, steady_env t0 (Status 200)),
                    (one_box (Finite 0.95), ref2, steady_env (t0 + 5) (Status 200)),
                    (one_box (Finite 0.8), ref3, steady_env (t0 + 11) (Status 200))]))
              = [t0, t0, t0 + 11])"
proof -
  let ?s1 = "snd (snd (send_alert s dt c t reply))"
  have ok: "\<not> cooldown_active s dt t" "reply = Status 200"
    using assms(2) send_alert_returns[of s dt c t reply] by simp_all
  then have s1: "?s1 = mark_sent s dt t"
    by (simp add: send_alert_accepted)
  have clock: "last_alert_time ?s1 dt = t"
    using s1 mark_sent_clock by simp
  have cd: "cooldown_seconds ?s1 = cooldown_seconds s"
    using send_alert_config[of s dt c t reply] by simp
  have a: "\<forall>i < length calls. \<forall>c' t' reply'.
            calls ! i = (dt, c', t', reply') \<and> t' - t < real_of_int (cooldown_seconds s)
            \<longrightarrow> fst (send_alerts ?s1 calls) ! i = (False, None)"
    using send_alerts_suppressed_after[of ?s1 t dt _ calls] assms(1) cd clock by auto
  have b: "real_of_int (cooldown_seconds s) \<le> t'' - t \<longrightarrow>
            fst (send_alert ?s1 dt c'' t'' (Status 200))
            \<and> last_alert_time (snd (snd (send_alert ?s1 dt c'' t'' (Status 200)))) dt = t''"
  proof
    assume "real_of_int (cooldown_seconds s) \<le> t'' - t"
    then have "\<not> cooldown_active ?s1 dt t''"
      using clock cd by (simp add: cooldown_active_def)
    then show "fst (send_alert ?s1 dt c'' t'' (Status 200))
            \<and> last_alert_time (snd (snd (send_alert ?s1 dt c'' t'' (Status 200)))) dt = t''"
      by (simp add: send_alert_accepted mark_sent_clock)
  qed
  show ?thesis
    using clock a b cooldown_scenario_frames[of rt t0 store ref1 ref2 ref3] by blast
qed



theorem one_alert_per_cooldown_window_witness:
  "0 \<le> cooldown_seconds (init_service 0.5 ''webcam-01'' 10)
   \<and> fst (send_alert (init_service 0.5 ''webcam-01'' 10) ''gun'' (Finite 0.9) 100 (Status 200))
   \<and> fst (send_alerts
            (snd (snd (send_alert (init_service 0.5 ''webcam-01'' 10) ''gun'' (Finite 0.9) 100
                         (Status 200))))
            [(''knife'', Finite 0.9, 102, Status 200), (''gun'', Finite 0.95, 105, Status 200)])
         ! 1
       = (False, None)
   \<and> fst (send_alert
            (snd (snd (send_alert (init_service 0.5 ''webcam-01'' 10) ''gun'' (Finite 0.9) 100
                         (Status 200))))
            ''gun'' (Finite 0.8) 111 (Status 200))
   \<and> map (last_gun_alert \<circ> service_after)
       (fst (detect_frames numpy2 (init_service 0.5 ''webcam-01'' 10) gun_knife_names
          camera_frames
          [(one_box (Finite 0.9), 0, steady_env 100 (Status 200)),
           (one_box (Finite 0.95), 1, steady_env (100 + 5) (Status 200)),
           (one_box (Finite 0.8), 2, steady_env (100 + 11) (Status 200))]))
       = [100, 100, 100 + 11]"
proof -
  let ?s0 = "init_service 0.5 ''webcam-01'' 10"
  let ?s1 = "snd (snd (send_alert ?s0 ''gun'' (Finite 0.9) 100 (Status 200)))"
  let ?calls = "[(''knife'', Finite 0.9, 102, Status 200), (''gun'', Finite 0.95, 105, Status 200)]
                  :: alert_call list"
  have h1: "0 \<le> cooldown_seconds ?s0"
    by (simp add: init_service_def)
  have h2: "fst (send_alert ?s0 ''gun'' (Finite 0.9) 100 (Status 200))"
    by (simp add: send_alert_def cooldown_active_def last_alert_time_def init_service_def)
  note window = one_alert_per_cooldown_window
      [OF h1 h2, of ?calls 111 "Finite 0.8" numpy2 100 camera_frames 0 1 2]
  have i: "1 < length ?calls"
    and call: "?calls ! 1 = (''gun'', Finite 0.95, 105, Status 200)"
    by simp_all
  have early: "105 - (100::real) < real_of_int (cooldown_seconds ?s0)"
    and late: "real_of_int (cooldown_seconds ?s0) \<le> 111 - (100::real)"
    and base: "(promote numpy2 = to_double \<or> promote numpy2 = to_single) \<and> (10::real) \<le> 100"
    by (simp_all add: init_service_def numpy2_def)
  have "fst (send_alerts ?s1 ?calls) ! 1 = (False, None)"
    using window i call early by blast
  moreover have "fst (send_alert ?s1 ''gun'' (Finite 0.8) 111 (Status 200))"
    using window late by blast
  moreover have "map (last_gun_alert \<circ> service_after)
       (fst (detect_frames numpy2 ?s0 gun_knife_names camera_frames
          [(one_box (Finite 0.9), 0, steady_env 100 (Status 200)),
           (one_box (Finite 0.95), 1, steady_env (100 + 5) (Status 200)),
           (one_box (Finite 0.8), 2, steady_env (100 + 11) (Status 200))]))
       = [100, 100, 100 + 11]"
    using window base by blast
  ultimately show ?thesis
    using h1 h2 by blast
qed

section \<open>Independence of the two clocks\<close>



section \<open>The two thresholds\<close>

lemma float32_alert_below_threshold:
  "requests (process_detections numpy2 (init_service 0.5 ''webcam-01'' 10)
      (one_box (Finite (11744051 / 16777216))) camera_frames 0 gun_knife_names True
      (steady_env 100 (Status 200)))
     = [\<lparr>camera_id_of = ''webcam-01'', confidence_of = Finite (11744051 / 16777216),
          detection_type_of = ''gun''\<rparr>]"
proof -
  let ?s0 = "init_service 0.5 ''webcam-01'' 10"
  have gates: "np_ge numpy2 (Finite (11744051 / 16777216)) (confidence_threshold ?s0)"
    "np_ge numpy2 (Finite (11744051 / 16777216)) (alert_threshold ?s0)"
    by (simp_all add: np_ge_def numpy2_def init_service_def to_single_thresholds)
  show ?thesis
    using one_box_alert[OF gates, of camera_frames 0 "steady_env 100 (Status 200)"]
    by (simp add: steady_env_def send_alert_def cooldown_active_def last_alert_time_def
          mark_sent_def opt_list_def init_service_def)
qed

text \<open>
  C4, as the claim states it, fails twice. The alert threshold is the constant 0.7 while
  the display threshold is configurable, so a service configured with 0.9 has an alert
  threshold below its display threshold. And where NumPy compares in \<^verbatim>\<open>float32\<close>, a
  gun detection whose confidence is the nearest \<^verbatim>\<open>float32\<close> to 0.7, which is
  11744051 / 16777216 = 0.69999998..., passes the test \<^verbatim>\<open>conf >= self.alert_threshold\<close>
  and is sent with that confidence, below 0.7.
\<close>

theorem alert_threshold_counterexample:
  "\<not> confidence_threshold (init_service 0.9 ''webcam-01'' 10)
       < alert_threshold (init_service 0.9 ''webcam-01'' 10)
   \<and> requests (process_detections numpy2 (init_service 0.5 ''webcam-01'' 10)
        (one_box (Finite (11744051 / 16777216))) camera_frames 0 gun_knife_names True
        (steady_env 100 (Status 200)))
       = [\<lparr>camera_id_of = ''webcam-01'', confidence_of = Finite (11744051 / 16777216),
            detection_type_of = ''gun''\<rparr>]
   \<and> 11744051 / 16777216 < alert_threshold (init_service 0.5 ''webcam-01'' 10)"
  using float32_alert_below_threshold by (simp add: init_service_def)

text \<open>
  C4, amended. The alert threshold of every service is 0.7; it is strictly above the
  display threshold whenever the configured display threshold is below 0.7. Every request
  that \<^verbatim>\<open>process_detections\<close> hands to \<^verbatim>\<open>requests.post\<close>, in one call and
  throughout the detection loop, is for a detection whose confidence passed the two tests
  \<^verbatim>\<open>conf >= self.confidence_threshold\<close> and \<^verbatim>\<open>conf >= self.alert_threshold\<close> as NumPy
  evaluates them: the confidence is at least the alert threshold and at least the display
  threshold, each as converted for the comparison. Compared in double precision that is the
  threshold itself; compared in \<^verbatim>\<open>float32\<close> the alert threshold counts as
  11744051 / 16777216, the nearest \<^verbatim>\<open>float32\<close> to 0.7.
\<close>

theorem alerts_pass_both_threshold_tests:
  "alert_threshold (init_service conf_thr cam cooldown) = 0.7
   \<and> (conf_thr < 0.7 \<longrightarrow>
        confidence_threshold (init_service conf_thr cam cooldown)
          < alert_threshold (init_service conf_thr cam cooldown))
   \<and> (\<forall>a \<in> set (requests (process_detections rt s results store ref names alerts_on env)).
        pf_le (promote rt (alert_threshold s)) (confidence_of a)
        \<and> pf_le (promote rt (confidence_threshold s)) (confidence_of a))
   \<and> (\<forall>r \<in> set (fst (detect_frames rt s names store frs)). \<forall>a \<in> set (requests r).
        pf_le (promote rt (alert_threshold s)) (confidence_of a)
        \<and> pf_le (promote rt (confidence_threshold s)) (confidence_of a))
   \<and> (promote rt = to_double \<longrightarrow>
        (\<forall>a \<in> set (requests (process_detections rt s results store ref names alerts_on env)).
           pf_le (Finite (alert_threshold s)) (confidence_of a)
           \<and> pf_le (Finite (confidence_threshold s)) (confidence_of a)))
   \<and> to_single 0.7 = Finite (11744051 / 16777216)"
proof -
  have double: "promote rt = to_double \<longrightarrow>
        (\<forall>a \<in> set (requests (process_detections rt s results store ref names alerts_on env)).
           pf_le (Finite (alert_threshold s)) (confidence_of a)
           \<and> pf_le (Finite (confidence_threshold s)) (confidence_of a))"
    using process_detections_requests[of s rt results store ref names alerts_on env]
    by (auto simp add: to_double_def)
  show ?thesis
    using process_detections_requests[of s rt results store ref names alerts_on env]
      detect_frames_requests[of rt s names store frs] double to_single_07
    by (simp add: init_service_def)
qed

theorem alerts_pass_both_threshold_tests_witness:
  "(0.5::real) < 0.7
   \<and> confidence_threshold (init_service 0.5 ''webcam-01'' 10)
       < alert_threshold (init_service 0.5 ''webcam-01'' 10)
   \<and> \<lparr>camera_id_of = ''webcam-01'', confidence_of = Finite (11744051 / 16777216),
        detection_type_of = ''gun''\<rparr>
       \<in> set (requests (process_detections numpy2 (init_service 0.5 ''webcam-01'' 10)
                 (one_box (Finite (11744051 / 16777216))) camera_frames 0 gun_knife_names True
                 (steady_env 100 (Status 200))))
   \<and> pf_le (promote numpy2 (alert_threshold (init_service 0.5 ''webcam-01'' 10)))
        (Finite (11744051 / 16777216))
   \<and> promote numpy2 (alert_threshold (init_service 0.5 ''webcam-01'' 10))
       = Finite (11744051 / 16777216)"
proof -
  let ?s0 = "init_service 0.5 ''webcam-01'' 10"
  let ?a = "\<lparr>camera_id_of = ''webcam-01'', confidence_of = Finite (11744051 / 16777216),
             detection_type_of = ''gun''\<rparr>"
  note inst = alerts_pass_both_threshold_tests [of "0.5" "''webcam-01''" 10 numpy2 ?s0
    "one_box (Finite (11744051 / 16777216))" camera_frames 0 gun_knife_names True
    "steady_env 100 (Status 200)" "[]"]
  have low: "(0.5::real) < 0.7" by simp
  have mem: "?a \<in> set (requests (process_detections numpy2 ?s0
                 (one_box (Finite (11744051 / 16777216))) camera_frames 0 gun_knife_names True
                 (steady_env 100 (Status 200))))"
    using float32_alert_below_threshold by simp
  have "pf_le (promote numpy2 (alert_threshold ?s0)) (confidence_of ?a)"
    using inst mem by blast
  then have gate: "pf_le (promote numpy2 (alert_threshold ?s0)) (Finite (11744051 / 16777216))"
    by simp
  have above: "confidence_threshold ?s0 < alert_threshold ?s0"
    using inst low by blast
  have thr: "alert_threshold ?s0 = 0.7" and single: "to_single 0.7 = Finite (11744051 / 16777216)"
    using inst by blast+
  have "promote numpy2 (alert_threshold ?s0) = to_single 0.7"
    unfolding thr by (simp add: numpy2_def)
  then have rounded: "promote numpy2 (alert_threshold ?s0) = Finite (11744051 / 16777216)"
    using single by (simp only:)
  show ?thesis
    using low above mem gate rounded by blast
qed

section \<open>Rows of more than six fields\<close>

text \<open>
  C5. The claim is that normalisation never raises and that malformed rows are dropped.
  The code checks the table against the shape it expects, \<open>(N, 6)\<close>, but only rejects
  rows of fewer than six fields: a table with a row of seven fields passes both length
  checks, the unpacking into six names raises \<^verbatim>\<open>ValueError\<close>, and
  \<^verbatim>\<open>process_detections\<close> raises it to its caller, with nothing sent and nothing
  drawn.
\<close>

theorem seven_field_row_raises:
  "returned (process_detections rt s seven_fields store ref names alerts_on env) = Inl ValueError
   \<and> requests (process_detections rt s seven_fields store ref names alerts_on env) = []
   \<and> store_after (process_detections rt s seven_fields store ref names alerts_on env) = store"
  by (simp add: process_detections_def seven_fields_def validate_pred_def process_row_def)

section \<open>Annotation\<close>










section \<open>The stream before the first frame\<close>

lemma generate_frames_waits: "generate_frames imencode (replicate n None) = []"
  by (induction n) (simp_all add: generate_frames_def generate_turn_def)

text \<open>
  C7, as the claim states it, fails for \<^verbatim>\<open>EnhancedDetectionService.generate_frames\<close>:
  while no frame has been published its loop yields nothing, however long it runs.
\<close>

theorem no_placeholder_counterexample:
  "generate_frames encoder_ok [None, None, None] = []"
  by (simp add: generate_frames_def generate_turn_def)

text \<open>
  C7, amended. \<^verbatim>\<open>working_video_stream.generate_frames\<close>, started before any frame has
  been published, yields in its first turn the placeholder frame (a black 480 by 640 image
  with four lines of status text) encoded as JPEG at quality 85 and wrapped as a multipart
  part, provided the encoder succeeds on it. \<^verbatim>\<open>EnhancedDetectionService.generate_frames\<close>
  has no placeholder: it yields nothing until a frame is published.
\<close>

theorem placeholder_before_first_frame:
  assumes "imencode (create_placeholder_frame stamp) 85 = Some jpeg"
  shows "wvs_generate_turn imencode quality stamp None = Some (multipart_chunk jpeg)
       \<and> wvs_generate_frames imencode quality ((stamp, None) # obs)
           = multipart_chunk jpeg # wvs_generate_frames imencode quality obs
       \<and> image (create_placeholder_frame stamp) = Zeros
       \<and> drawn (create_placeholder_frame stamp)
           = [Put_Text (Placeholder_Line ''AlertMatrix Video Stream'') (50, 180) 0.8
                (128, 128, 128) 2,
              Put_Text (Placeholder_Line ''Camera Not Available'') (50, 220) 0.8
                (128, 128, 128) 2,
              Put_Text (Placeholder_Line ''Please check camera connection'') (50, 260) 0.8
                (128, 128, 128) 2,
              Put_Text (Placeholder_Line stamp) (50, 300) 0.8 (128, 128, 128) 2]
       \<and> generate_frames imencode (replicate n None) = []"
proof -
  have turn: "wvs_generate_turn imencode quality stamp None = Some (multipart_chunk jpeg)"
    using assms by (simp add: wvs_generate_turn_def)
  then have first: "wvs_generate_frames imencode quality ((stamp, None) # obs)
           = multipart_chunk jpeg # wvs_generate_frames imencode quality obs"
    by (simp add: wvs_generate_frames_def)
  have placeholder: "image (create_placeholder_frame stamp) = Zeros"
    "drawn (create_placeholder_frame stamp)
           = [Put_Text (Placeholder_Line ''AlertMatrix Video Stream'') (50, 180) 0.8
                (128, 128, 128) 2,
              Put_Text (Placeholder_Line ''Camera Not Available'') (50, 220) 0.8
                (128, 128, 128) 2,
              Put_Text (Placeholder_Line ''Please check camera connection'') (50, 260) 0.8
                (128, 128, 128) 2,
              Put_Text (Placeholder_Line stamp) (50, 300) 0.8 (128, 128, 128) 2]"
    by (simp_all add: create_placeholder_frame_def)
  show ?thesis
    using turn first placeholder generate_frames_waits[of imencode n] by simp
qed

theorem placeholder_before_first_frame_witness:
  "encoder_ok (create_placeholder_frame ''2025-01-01 12:00:00'') 85 = Some ''JPEG''
   \<and> wvs_generate_frames encoder_ok ''auto''
        [(''2025-01-01 12:00:00'', None), (''2025-01-01 12:00:00'', None)]
       = [multipart_chunk ''JPEG'', multipart_chunk ''JPEG'']
   \<and> generate_frames encoder_ok (replicate 2 None) = []"
proof -
  have enc: "encoder_ok (create_placeholder_frame ''2025-01-01 12:00:00'') 85 = Some ''JPEG''"
    by (simp add: encoder_ok_def)
  note first = placeholder_before_first_frame
      [of encoder_ok "''2025-01-01 12:00:00''" "''JPEG''" "''auto''"
          "[(''2025-01-01 12:00:00'', None)]" 2, OF enc]
  note second = placeholder_before_first_frame
      [of encoder_ok "''2025-01-01 12:00:00''" "''JPEG''" "''auto''" "[]" 2, OF enc]
  have "wvs_generate_frames encoder_ok ''auto'' [] = []"
    by (simp add: wvs_generate_frames_def)
  then show ?thesis
    using enc first second by simp
qed

section \<open>Camera fallback\<close>

lemma try_fallbacks_effects:
  assumes "try_fallbacks dev idxs s = (ok, tried, s')"
  shows "(\<exists>rest. filter (\<lambda>idx. idx \<noteq> camera_index s) idxs = tried @ rest
                \<and> (\<not> ok \<longrightarrow> rest = []))
   \<and> (ok \<longrightarrow> tried \<noteq> [] \<and> dev (last tried) = Opened
            \<and> (\<forall>idx \<in> set (butlast tried). dev idx \<noteq> Opened)
            \<and> camera_index s' = last tried
            \<and> cap s' = Some \<lparr>device = last tried, is_opened = True\<rparr>)
   \<and> (\<not> ok \<longrightarrow> (\<forall>idx \<in> set tried. dev idx \<noteq> Opened) \<and> camera_index s' = camera_index s)"
  using assms
proof (induction idxs arbitrary: s ok tried s')
  case Nil
  then show ?case by simp
next
  case (Cons idx idxs)
  show ?case
  proof (cases "idx = camera_index s")
    case True
    then have "try_fallbacks dev idxs s = (ok, tried, s')"
      using Cons.prems by simp
    then show ?thesis
      using Cons.IH[of s ok tried s'] True by simp
  next
    case False
    show ?thesis
    proof (cases "dev idx")
      case Opened
      then have "ok" "tried = [idx]"
        "s' = s\<lparr>cap := Some \<lparr>device = idx, is_opened = True\<rparr>, camera_index := idx\<rparr>"
        using Cons.prems False by simp_all
      then show ?thesis
        using False Opened by simp
    next
      case Not_Opened
      let ?s1 = "s\<lparr>cap := Some \<lparr>device = idx, is_opened = False\<rparr>\<rparr>"
      obtain ok1 tried1 s1' where rec: "try_fallbacks dev idxs ?s1 = (ok1, tried1, s1')"
        by (metis prod_cases3)
      have res: "ok = ok1" "tried = idx # tried1" "s' = s1'"
        using Cons.prems False Not_Opened rec by simp_all
      note ih = Cons.IH[OF rec]
      show ?thesis
        unfolding res using ih False Not_Opened
        by (cases "tried1 = []") (auto simp add: butlast_def)
    next
      case Open_Raised
      obtain ok1 tried1 s1' where rec: "try_fallbacks dev idxs s = (ok1, tried1, s1')"
        by (metis prod_cases3)
      have res: "ok = ok1" "tried = idx # tried1" "s' = s1'"
        using Cons.prems False Open_Raised rec by simp_all
      note ih = Cons.IH[OF rec]
      show ?thesis
        unfolding res using ih False Open_Raised
        by (cases "tried1 = []") (auto simp add: butlast_def)
    qed
  qed
qed


lemma initialize_camera_first_attempt:
  assumes "\<not> cap_is_open s"
  shows "\<exists>more. fst (snd (initialize_camera dev alts s)) = camera_index s # more"
proof (cases "dev (camera_index s)")
  case Opened
  then show ?thesis using assms by (simp add: initialize_camera_def)
next
  case Not_Opened
  then show ?thesis
    using assms by (auto simp add: initialize_camera_def Let_def split: prod.splits)
next
  case Open_Raised
  then show ?thesis
    using assms by (auto simp add: initialize_camera_def Let_def split: prod.splits)
qed

lemma connection_lost_closed:
  "\<not> cap_is_open (connection_lost s) \<and> camera_index (connection_lost s) = camera_index s"
  by (cases "cap s") (simp_all add: connection_lost_def cap_is_open_def)

text \<open>
  C8. When no capture is open, \<^verbatim>\<open>initialize_camera\<close> tries the preferred index first
  and then the fallback indices in their order (the preferred one skipped), stopping at the
  first that opens. On success the index that opened is the last one tried, none before it
  opened, and it is stored as \<^verbatim>\<open>camera_index\<close>; on failure every index was tried and
  \<^verbatim>\<open>camera_index\<close> is unchanged. After a lost connection the capture loop's reconnect
  tries the stored \<^verbatim>\<open>camera_index\<close> first, whatever the devices do then.
\<close>

theorem camera_fallback_remembers_index:
  assumes "\<not> cap_is_open s"
    and "initialize_camera dev True s = (ok, tried, s')"
  shows "(\<exists>rest. camera_index s # filter (\<lambda>idx. idx \<noteq> camera_index s) (fallback_indexes s)
                  = tried @ rest \<and> (\<not> ok \<longrightarrow> rest = []))
       \<and> tried \<noteq> [] \<and> hd tried = camera_index s
       \<and> (ok \<longrightarrow> dev (last tried) = Opened
                \<and> (\<forall>idx \<in> set (butlast tried). dev idx \<noteq> Opened)
                \<and> camera_index s' = last tried
                \<and> cap s' = Some \<lparr>device = last tried, is_opened = True\<rparr>)
       \<and> (\<not> ok \<longrightarrow> (\<forall>idx \<in> set tried. dev idx \<noteq> Opened) \<and> camera_index s' = camera_index s)
       \<and> (\<forall>dev'. \<exists>more.
            fst (snd (reconnect_if_lost dev' (connection_lost s'))) = camera_index s' # more)"
proof -
  have again: "\<forall>dev'. \<exists>more.
            fst (snd (reconnect_if_lost dev' (connection_lost s'))) = camera_index s' # more"
    using connection_lost_closed[of s']
      initialize_camera_first_attempt[of "connection_lost s'" _ True]
    by (simp add: reconnect_if_lost_def)
  show ?thesis
  proof (cases "dev (camera_index s)")
    case Opened
    then have res: "ok" "tried = [camera_index s]"
      "s' = s\<lparr>cap := Some \<lparr>device = camera_index s, is_opened = True\<rparr>\<rparr>"
      using assms by (simp_all add: initialize_camera_def)
    show ?thesis
      using again Opened unfolding res(2) by (simp add: res(1) res(3))
  next
    case Not_Opened
    let ?s1 = "s\<lparr>cap := Some \<lparr>device = camera_index s, is_opened = False\<rparr>\<rparr>"
    obtain ok1 tried1 s1' where rec: "try_fallbacks dev (fallback_indexes ?s1) ?s1 = (ok1, tried1, s1')"
      by (metis prod_cases3)
    have res: "ok = ok1" "tried = camera_index s # tried1" "s' = s1'"
      using assms Not_Opened rec by (simp_all add: initialize_camera_def Let_def)
    note eff = try_fallbacks_effects[OF rec]
    show ?thesis
      using again eff Not_Opened unfolding res
      by (cases "tried1 = []") (auto simp add: butlast_def)
  next
    case Open_Raised
    obtain ok1 tried1 s1' where rec: "try_fallbacks dev (fallback_indexes s) s = (ok1, tried1, s1')"
      by (metis prod_cases3)
    have res: "ok = ok1" "tried = camera_index s # tried1" "s' = s1'"
      using assms Open_Raised rec by (simp_all add: initialize_camera_def Let_def)
    note eff = try_fallbacks_effects[OF rec]
    show ?thesis
      using again eff Open_Raised unfolding res
      by (cases "tried1 = []") (auto simp add: butlast_def)
  qed
qed

theorem camera_fallback_remembers_index_witness:
  "\<not> cap_is_open init_streamer
   \<and> initialize_camera only_device_2 True init_streamer
       = (True, [0, 1, 2],
          init_streamer\<lparr>cap := Some \<lparr>device = 2, is_opened = True\<rparr>, camera_index := 2\<rparr>)
   \<and> camera_index (snd (snd (initialize_camera only_device_2 True init_streamer))) = 2
   \<and> (\<exists>more. fst (snd (reconnect_if_lost only_device_2
                 (connection_lost
                    (init_streamer\<lparr>cap := Some \<lparr>device = 2, is_opened = True\<rparr>,
                                   camera_index := 2\<rparr>))))
               = 2 # more)"
proof -
  let ?s' = "init_streamer\<lparr>cap := Some \<lparr>device = 2, is_opened = True\<rparr>, camera_index := 2\<rparr>"
  have closed: "\<not> cap_is_open init_streamer"
    by (simp add: cap_is_open_def init_streamer_def)
  have run: "initialize_camera only_device_2 True init_streamer = (True, [0, 1, 2], ?s')"
    by (simp add: initialize_camera_def cap_is_open_def init_streamer_def only_device_2_def)
  note inst = camera_fallback_remembers_index [OF closed run]
  have idx: "camera_index ?s' = 2"
    by simp
  have "\<exists>more. fst (snd (reconnect_if_lost only_device_2 (connection_lost ?s'))) = 2 # more"
    using inst idx by metis
  then show ?thesis
    using closed run by simp
qed

end
